theory Spec2Isabelle
  imports Complex_Main
begin

section \<open>Display list structure: Container child management\<close>

text \<open>
  The display list of \<^verbatim>\<open>Container.js\<close> is a heap of objects linked in both
  directions: every display object has a \<^verbatim>\<open>parent\<close> field (an object or
  \<^verbatim>\<open>null\<close>) and every Container has a \<^verbatim>\<open>children\<close> array. Objects are
  named by identifiers; the two fields are the two components of the store. Every
  identifier carries a child array: a leaf is an object whose array stays empty because
  the child management methods exist on Containers only.
\<close>

type_synonym oid = nat

record scene =
  parent :: "oid \<Rightarrow> oid option"
  children :: "oid \<Rightarrow> oid list"

datatype error = TypeError | Thrown string

text \<open>\<^verbatim>\<open>Array.prototype.indexOf\<close>: the first index holding the element, or -1.\<close>

fun indexOf :: "'a list \<Rightarrow> 'a \<Rightarrow> int" where
  "indexOf [] x = - 1"
| "indexOf (y # ys) x =
     (if y = x then 0 else (let i = indexOf ys x in if i < 0 then - 1 else i + 1))"

text \<open>\<^verbatim>\<open>array.splice(index, 1)\<close> for an index inside the array.\<close>

definition splice1 :: "nat \<Rightarrow> 'a list \<Rightarrow> 'a list" where
  "splice1 i xs = take i xs @ drop (Suc i) xs"

text \<open>
  \<^verbatim>\<open>removeChildAt\<close> called with one index (the code below the \<^verbatim>\<open>l > 1\<close>
  branch). The index is a JavaScript number; the model takes the integers. The result is
  the returned boolean and the store after the call. Entries of the child array are
  objects, so the guard \<^verbatim>\<open>child != null\<close> always passes.
\<close>

definition removeChildAt1 :: "oid \<Rightarrow> int \<Rightarrow> scene \<Rightarrow> bool \<times> scene" where
  "removeChildAt1 this index s =
     (if index < 0 \<or> index > int (length (children s this)) - 1 then (False, s)
      else
        let child = children s this ! nat index;
            s1 = s\<lparr>parent := (parent s)(child := None)\<rparr>
        in (True, s1\<lparr>children := (children s1)(this := splice1 (nat index) (children s1 this))\<rparr>))"

text \<open>
  \<^verbatim>\<open>removeChildAt(i1, i2, ...)\<close>. With more than one argument the indices are
  copied, sorted by the comparator \<^verbatim>\<open>b - a\<close> (descending) and removed one at a
  time; \<^verbatim>\<open>good = good && this.removeChildAt(a[i])\<close> stops calling once a removal
  has failed. With no argument the index is \<^verbatim>\<open>undefined\<close>: both comparisons of
  the range check are false, \<^verbatim>\<open>children[undefined]\<close> is \<^verbatim>\<open>undefined\<close> (no
  parent is cleared) and \<^verbatim>\<open>splice(undefined, 1)\<close> deletes at position 0.
\<close>

definition removeChildAt :: "oid \<Rightarrow> int list \<Rightarrow> scene \<Rightarrow> bool \<times> scene" where
  "removeChildAt this args s =
     (if length args > 1 then
        fold (\<lambda>i (good, s'). if good then removeChildAt1 this i s' else (False, s'))
             (rev (sort args)) (True, s)
      else case args of
        [i] \<Rightarrow> removeChildAt1 this i s
      | _ \<Rightarrow> (True, s\<lparr>children := (children s)(this := drop 1 (children s this))\<rparr>))"

text \<open>
  \<^verbatim>\<open>removeChild(child1, child2, ...)\<close>; with one child it is
  \<^verbatim>\<open>removeChildAt(children.indexOf(child))\<close>. Called with no argument it looks
  for \<^verbatim>\<open>undefined\<close>, which no child array holds.
\<close>

definition removeChild1 :: "oid \<Rightarrow> oid \<Rightarrow> scene \<Rightarrow> bool \<times> scene" where
  "removeChild1 this child s = removeChildAt this [indexOf (children s this) child] s"

definition removeChild :: "oid \<Rightarrow> oid list \<Rightarrow> scene \<Rightarrow> bool \<times> scene" where
  "removeChild this args s =
     (if length args > 1 then
        fold (\<lambda>c (good, s'). if good then removeChild1 this c s' else (False, s'))
             args (True, s)
      else case args of
        [c] \<Rightarrow> removeChild1 this c s
      | _ \<Rightarrow> removeChildAt this [- 1] s)"

text \<open>
  \<^verbatim>\<open>addChild\<close> with one child: detach it from its current parent, set the back
  reference, push it at the end. The call returns the child.
\<close>

definition addChild1 :: "oid \<Rightarrow> oid \<Rightarrow> scene \<Rightarrow> scene" where
  "addChild1 this child s =
     (let s1 = (case parent s child of
                  Some p \<Rightarrow> snd (removeChild p [child] s)
                | None \<Rightarrow> s);
          s2 = s1\<lparr>parent := (parent s1)(child \<mapsto> this)\<rparr>
      in s2\<lparr>children := (children s2)(this := children s2 this @ [child])\<rparr>)"

text \<open>
  \<^verbatim>\<open>addChild(child1, child2, ...)\<close> adds the arguments in order and returns the
  last one. Without an argument \<^verbatim>\<open>child\<close> is \<^verbatim>\<open>undefined\<close> and reading
  \<^verbatim>\<open>child.parent\<close> raises a TypeError.
\<close>

definition addChild :: "oid \<Rightarrow> oid list \<Rightarrow> scene \<Rightarrow> error + oid \<times> scene" where
  "addChild this args s =
     (if length args > 1 then Inr (last args, fold (addChild1 this) args s)
      else case args of
        [c] \<Rightarrow> Inr (c, addChild1 this c s)
      | _ \<Rightarrow> Inl TypeError)"

text \<open>
  Single ownership: an object that occurs in a child array occurs there once, in no
  other child array, and its parent field names the owner of that array.
\<close>

definition single_owner :: "scene \<Rightarrow> bool" where
  "single_owner s \<longleftrightarrow>
     (\<forall>g c. c \<in> set (children s g) \<longrightarrow> parent s c = Some g) \<and>
     (\<forall>g. distinct (children s g))"

text \<open>
  The child arrays once \<^verbatim>\<open>child\<close> has been taken out of the array of its
  current parent, if it has one.
\<close>

definition detached :: "oid \<Rightarrow> scene \<Rightarrow> oid \<Rightarrow> oid list" where
  "detached c s = (case parent s c of
       Some p \<Rightarrow> (children s)(p := remove1 c (children s p))
     | None \<Rightarrow> children s)"

text \<open>
  The store in which the children of \<^verbatim>\<open>g\<close> at the positions \<^verbatim>\<open>I\<close> are gone
  from the array, in the order of the survivors, and have lost their parent.
\<close>

definition removed_scene :: "oid \<Rightarrow> int set \<Rightarrow> scene \<Rightarrow> scene" where
  "removed_scene g I s =
     s\<lparr>parent := (\<lambda>n. if n \<in> (\<lambda>i. children s g ! nat i) ` I then None else parent s n),
       children := (children s)(g := nths (children s g) {j. int j \<notin> I})\<rparr>"

text \<open>Two small display lists: a Container 0 with two, respectively three, children.\<close>

definition scene0 :: scene where
  "scene0 = \<lparr>parent = (\<lambda>_. None)(2 \<mapsto> 0, 3 \<mapsto> 0), children = (\<lambda>_. [])(0 := [2, 3])\<rparr>"

definition scene3 :: scene where
  "scene3 = \<lparr>parent = (\<lambda>_. None)(10 \<mapsto> 0, 11 \<mapsto> 0, 12 \<mapsto> 0),
             children = (\<lambda>_. [])(0 := [10, 11, 12])\<rparr>"

section \<open>BitmapSequence: the sprite sheet player\<close>

text \<open>
  The sprite sheet is a resource that \<^verbatim>\<open>BitmapSequence.js\<close> only reads: the pixel
  size of its image, the frame size, the optional frame count, the loop flag and the
  optional table of named sequences. An entry of the table is either an array
  \<^verbatim>\<open>[start, end, next]\<close>, whose second and third components may be missing, or a
  single frame number. The third component is a sequence name, \<^verbatim>\<open>false\<close>, or
  absent. Sequence names are strings that are not numeric, which is how
  \<^verbatim>\<open>_goto\<close> tells them from frame numbers, and the table is total on the names
  handed to it.
\<close>

datatype nextSpec = NextAbsent | NextFalse | NextName string

datatype frameDatum = FrameArray int "int option" nextSpec | FrameNumber int

record spriteSheet =
  imageWidth :: nat
  imageHeight :: nat
  frameWidth :: nat
  frameHeight :: nat
  totalFrames :: "int option"
  loop :: bool
  frameData :: "(string \<Rightarrow> frameDatum) option"

text \<open>
  The fields of a BitmapSequence that the playback code reads or writes. The callback
  is code of the caller: the model records whether one is registered and counts its
  invocations in \<open>callbackCalls\<close>. Frame numbers are integers. \<open>advanceCount\<close> is
  the private field \<^verbatim>\<open>_advanceCount\<close>.
\<close>

record bitmapSequence =
  callback :: bool
  callbackCalls :: nat
  currentFrame :: int
  currentSequence :: "string option"
  currentEndFrame :: "int option"
  currentStartFrame :: "int option"
  nextSequence :: "string option"
  paused :: bool
  spriteSheet :: spriteSheet
  advanceFrequency :: int
  advanceOffset :: int
  advanceCount :: int

datatype frameRef = Frame int | Name string

text \<open>
  The remainder operator \<^verbatim>\<open>%\<close> on integers: the result has the sign of the
  dividend and is \<^verbatim>\<open>NaN\<close> (here \<open>None\<close>) for a zero divisor.
\<close>

definition js_rem :: "int \<Rightarrow> int \<Rightarrow> int option" where
  "js_rem x y = (if y = 0 then None else Some (sgn x * (\<bar>x\<bar> mod \<bar>y\<bar>)))"

text \<open>
  \<^verbatim>\<open>x | 0\<close> on an integer: the value wrapped to a signed 32 bit integer.
\<close>

definition toInt32 :: "int \<Rightarrow> int" where
  "toInt32 x = (x + 2147483648) mod 4294967296 - 2147483648"

text \<open>
  \<^verbatim>\<open>x / y | 0\<close> on integers: the quotient, truncated towards zero and wrapped
  to 32 bits; it is 0 when the quotient is \<^verbatim>\<open>Infinity\<close> or \<^verbatim>\<open>NaN\<close>.
\<close>

definition js_div_int32 :: "int \<Rightarrow> int \<Rightarrow> int" where
  "js_div_int32 x y = (if y = 0 then 0 else toInt32 (sgn x * sgn y * (\<bar>x\<bar> div \<bar>y\<bar>)))"

text \<open>\<^verbatim>\<open>if (this.callback) { this.callback(this); }\<close>\<close>

definition invokeCallback :: "bitmapSequence \<Rightarrow> bitmapSequence" where
  "invokeCallback s = (if callback s then s\<lparr>callbackCalls := callbackCalls s + 1\<rparr> else s)"

text \<open>
  \<^verbatim>\<open>_goto(frameOrSequence)\<close>. Reading \<^verbatim>\<open>frameData[name]\<close> on a sheet without
  a table raises a TypeError. When the name is the current sequence the frame is reset
  to \<^verbatim>\<open>currentStartFrame\<close>; should that field be \<^verbatim>\<open>null\<close>, the frame becomes
  \<^verbatim>\<open>null\<close>, which the arithmetic and the comparisons of \<^verbatim>\<open>BitmapSequence.js\<close> read as 0. A next
  sequence that compares equal to \<^verbatim>\<open>false\<close> (the value \<^verbatim>\<open>false\<close>, or the
  empty string) is stored as \<^verbatim>\<open>null\<close>.
\<close>

fun goto :: "frameRef \<Rightarrow> bitmapSequence \<Rightarrow> error + bitmapSequence" where
  "goto (Name n) s =
     (if currentSequence s = Some n then
        Inr (s\<lparr>currentFrame := (case currentStartFrame s of Some f \<Rightarrow> f | None \<Rightarrow> 0)\<rparr>)
      else case frameData (spriteSheet s) of
        None \<Rightarrow> Inl TypeError
      | Some table \<Rightarrow>
          (case table n of
             FrameArray start end nxt \<Rightarrow>
               Inr (s\<lparr>currentFrame := start,
                      currentStartFrame := Some start,
                      currentSequence := Some n,
                      currentEndFrame := (case end of Some e \<Rightarrow> Some e | None \<Rightarrow> Some start),
                      nextSequence := (case nxt of
                                         NextAbsent \<Rightarrow> Some n
                                       | NextFalse \<Rightarrow> None
                                       | NextName m \<Rightarrow> (if m = [] then None else Some m))\<rparr>)
           | FrameNumber f \<Rightarrow>
               Inr (s\<lparr>currentSequence := None,
                      nextSequence := None,
                      currentEndFrame := Some f,
                      currentFrame := f,
                      currentStartFrame := Some f\<rparr>)))"
| "goto (Frame f) s =
     Inr (s\<lparr>currentSequence := None,
            nextSequence := None,
            currentEndFrame := None,
            currentStartFrame := Some 0,
            currentFrame := f\<rparr>)"

definition gotoAndPlay :: "frameRef \<Rightarrow> bitmapSequence \<Rightarrow> error + bitmapSequence" where
  "gotoAndPlay r s = goto r (s\<lparr>paused := False\<rparr>)"

definition gotoAndStop :: "frameRef \<Rightarrow> bitmapSequence \<Rightarrow> error + bitmapSequence" where
  "gotoAndStop r s = goto r (s\<lparr>paused := True\<rparr>)"

text \<open>\<^verbatim>\<open>advance\<close>: the whole body is \<^verbatim>\<open>this.currentFrame++\<close>.\<close>

definition advance :: "bitmapSequence \<Rightarrow> bitmapSequence" where
  "advance s = s\<lparr>currentFrame := currentFrame s + 1\<rparr>"

text \<open>
  The frame count of simple mode,
  \<^verbatim>\<open>spriteSheet.totalFrames || cols*rows\<close>: a missing or zero
  \<^verbatim>\<open>totalFrames\<close> falls back to the grid of the image.
\<close>

definition ttlFrames :: "spriteSheet \<Rightarrow> int" where
  "ttlFrames sh =
     (let cols = js_div_int32 (int (imageWidth sh)) (int (frameWidth sh));
          rows = js_div_int32 (int (imageHeight sh)) (int (frameHeight sh))
      in case totalFrames sh of
           Some n \<Rightarrow> (if n \<noteq> 0 then n else cols * rows)
         | None \<Rightarrow> cols * rows)"

text \<open>
  \<^verbatim>\<open>_normalizeCurrentFrame\<close>: with a current end frame the sequence branch runs,
  otherwise simple mode. In both the callback runs after the frame was corrected. A
  next sequence that is \<^verbatim>\<open>null\<close> or the empty string fails the test
  \<^verbatim>\<open>if (this.nextSequence)\<close>.
\<close>

definition normalizeCurrentFrame :: "bitmapSequence \<Rightarrow> error + bitmapSequence" where
  "normalizeCurrentFrame s =
     (case currentEndFrame s of
        Some e \<Rightarrow>
          (if currentFrame s > e then
             (let stop = Inr (invokeCallback (s\<lparr>paused := True, currentFrame := e\<rparr>))
              in case nextSequence s of
                   None \<Rightarrow> stop
                 | Some n \<Rightarrow>
                     (if n = [] then stop
                      else case goto (Name n) s of
                             Inl err \<Rightarrow> Inl err
                           | Inr s1 \<Rightarrow> Inr (invokeCallback s1)))
           else Inr s)
      | None \<Rightarrow>
          (if currentFrame s \<ge> ttlFrames (spriteSheet s) then
             (if loop (spriteSheet s) then Inr (invokeCallback (s\<lparr>currentFrame := 0\<rparr>))
              else Inr (invokeCallback
                     (s\<lparr>currentFrame := ttlFrames (spriteSheet s) - 1, paused := True\<rparr>)))
           else Inr s))"

text \<open>
  \<^verbatim>\<open>_tick\<close>, run once per frame by the stage. The counter is incremented only
  when the sequence is not paused, because \<^verbatim>\<open>&&\<close> does not evaluate its right
  operand otherwise.
\<close>

definition tick :: "bitmapSequence \<Rightarrow> error + bitmapSequence" where
  "tick s =
     (let s1 = (if currentFrame s = - 1 \<and> frameData (spriteSheet s) \<noteq> None
                then s\<lparr>paused := True\<rparr> else s)
      in if \<not> paused s1 then
           (let s2 = s1\<lparr>advanceCount := advanceCount s1 + 1\<rparr>
            in if js_rem (advanceCount s2 + advanceOffset s2) (advanceFrequency s2) = Some 0
               then normalizeCurrentFrame (s2\<lparr>currentFrame := currentFrame s2 + 1\<rparr>)
               else Inr s2)
         else Inr s1)"

text \<open>
  \<^verbatim>\<open>getCurrentFrameRect\<close> normalizes the frame and then returns the rectangle of
  the frame in the image, or nothing for a negative frame. The column is
  \<^verbatim>\<open>currentFrame % cols\<close>, which is \<^verbatim>\<open>NaN\<close> on a sheet with no column, and
  so is then the left edge (\<open>None\<close>); the row is
  \<^verbatim>\<open>currentFrame / cols | 0\<close>.
\<close>

datatype rectangle = Rectangle "int option" int nat nat

definition getCurrentFrameRect :: "bitmapSequence \<Rightarrow> error + rectangle option \<times> bitmapSequence" where
  "getCurrentFrameRect s =
     (let cols = js_div_int32 (int (imageWidth (spriteSheet s))) (int (frameWidth (spriteSheet s)))
      in case normalizeCurrentFrame s of
           Inl err \<Rightarrow> Inl err
         | Inr s1 \<Rightarrow>
             (if currentFrame s1 \<ge> 0 then
                (let col = js_rem (currentFrame s1) cols;
                     row = js_div_int32 (currentFrame s1) cols
                 in Inr (Some (Rectangle (map_option (\<lambda>c. int (frameWidth (spriteSheet s)) * c) col)
                                         (int (frameHeight (spriteSheet s)) * row)
                                         (frameWidth (spriteSheet s)) (frameHeight (spriteSheet s))), s1))
              else Inr (None, s1)))"

text \<open>
  A four frame looping sheet without named sequences, and a player on its last frame
  with a callback registered.
\<close>

definition sheet4 :: spriteSheet where
  "sheet4 = \<lparr>imageWidth = 128, imageHeight = 32, frameWidth = 32, frameHeight = 32,
             totalFrames = Some 4, loop = True, frameData = None\<rparr>"

definition seq4 :: bitmapSequence where
  "seq4 = \<lparr>callback = True, callbackCalls = 0, currentFrame = 3, currentSequence = None,
           currentEndFrame = None, currentStartFrame = None, nextSequence = None,
           paused = False, spriteSheet = sheet4, advanceFrequency = 1, advanceOffset = 0,
           advanceCount = 0\<rparr>"

section \<open>Matrix2D: the inherited visual properties\<close>

text \<open>
  A Matrix2D carries six affine coefficients and three properties that are handed down
  the display list: \<^verbatim>\<open>alpha\<close>, \<^verbatim>\<open>shadow\<close> and
  \<^verbatim>\<open>compositeOperation\<close>. The fields are prefixed with \<open>mtx_\<close> because the
  coefficient names \<^verbatim>\<open>a\<close>, \<^verbatim>\<open>b\<close>, \<^verbatim>\<open>c\<close>, \<^verbatim>\<open>d\<close> would capture
  the variables of every later statement. Numbers are reals. A shadow is an object with
  a colour, two offsets and a blur (the fields \<^verbatim>\<open>applyShadow\<close> reads);
  \<^verbatim>\<open>null\<close> is \<open>None\<close>.
\<close>

datatype shadow = Shadow string real real real

record matrix2D =
  mtx_a :: real
  mtx_b :: real
  mtx_c :: real
  mtx_d :: real
  mtx_tx :: real
  mtx_ty :: real
  mtx_alpha :: real
  mtx_shadow :: "shadow option"
  mtx_compositeOperation :: "string option"

text \<open>
  The operand test of \<^verbatim>\<open>||\<close> and \<^verbatim>\<open>!\<close>: an object is truthy, a string
  is truthy unless it is empty, \<^verbatim>\<open>null\<close> and \<^verbatim>\<open>undefined\<close> are falsy.
\<close>

definition truthy_string :: "string option \<Rightarrow> bool" where
  "truthy_string v \<longleftrightarrow> (case v of None \<Rightarrow> False | Some t \<Rightarrow> t \<noteq> [])"

definition truthy_object :: "'a option \<Rightarrow> bool" where
  "truthy_object v \<longleftrightarrow> v \<noteq> None"

text \<open>
  \<^verbatim>\<open>appendProperties\<close>:
  \<^verbatim>\<open>this.alpha *= alpha; this.shadow = shadow || this.shadow;
  this.compositeOperation = compositeOperation || this.compositeOperation;\<close>
\<close>

definition appendProperties ::
  "real \<Rightarrow> shadow option \<Rightarrow> string option \<Rightarrow> matrix2D \<Rightarrow> matrix2D" where
  "appendProperties alpha shadow compositeOperation this =
     this\<lparr>mtx_alpha := mtx_alpha this * alpha,
          mtx_shadow := (if truthy_object shadow then shadow else mtx_shadow this),
          mtx_compositeOperation :=
            (if truthy_string compositeOperation then compositeOperation
             else mtx_compositeOperation this)\<rparr>"

text \<open>
  \<^verbatim>\<open>prependProperties\<close>:
  \<^verbatim>\<open>this.alpha *= alpha; this.shadow = this.shadow || shadow;
  this.compositeOperation = this.compositeOperation || compositeOperation;\<close>
\<close>

definition prependProperties ::
  "real \<Rightarrow> shadow option \<Rightarrow> string option \<Rightarrow> matrix2D \<Rightarrow> matrix2D" where
  "prependProperties alpha shadow compositeOperation this =
     this\<lparr>mtx_alpha := mtx_alpha this * alpha,
          mtx_shadow := (if truthy_object (mtx_shadow this) then mtx_shadow this else shadow),
          mtx_compositeOperation :=
            (if truthy_string (mtx_compositeOperation this) then mtx_compositeOperation this
             else compositeOperation)\<rparr>"

text \<open>
  A composite operation, when present, is an identifier such as
  \<^verbatim>\<open>"source-over"\<close> or \<^verbatim>\<open>"multiply"\<close>: a string that is not empty.
\<close>

definition composite_mode :: "string option \<Rightarrow> bool" where
  "composite_mode v \<longleftrightarrow> v \<noteq> Some []"

text \<open>A matrix with a shadow and a composite operation, and one with neither.\<close>

definition mtx_styled :: matrix2D where
  "mtx_styled = \<lparr>mtx_a = 1, mtx_b = 0, mtx_c = 0, mtx_d = 1, mtx_tx = 0, mtx_ty = 0,
                 mtx_alpha = 1 / 2, mtx_shadow = Some (Shadow ''#000'' 1 1 2),
                 mtx_compositeOperation = Some ''multiply''\<rparr>"

definition mtx_plain :: matrix2D where
  "mtx_plain = \<lparr>mtx_a = 1, mtx_b = 0, mtx_c = 0, mtx_d = 1, mtx_tx = 0, mtx_ty = 0,
                mtx_alpha = 1, mtx_shadow = None, mtx_compositeOperation = None\<rparr>"

section \<open>Matrix2D: construction, clone and invert\<close>















section \<open>Graphics: the recorded drawing instructions\<close>

text \<open>
  A Graphics object records Commands, each a context method with its arguments, and
  replays them on a context. The three shared Commands without arguments are
  \<^verbatim>\<open>beginCmd\<close>, \<^verbatim>\<open>fillCmd\<close> and \<^verbatim>\<open>strokeCmd\<close>; a Command built on
  \<^verbatim>\<open>_setProp\<close> assigns a property of the context. A fill or stroke style is a
  colour string, or a gradient or pattern object made by the context; images are named
  by numbers.
\<close>

datatype paint =
    LinearGradient "(real \<times> string) list" real real real real
  | RadialGradient "(real \<times> string) list" real real real real real real
  | Pattern nat string

datatype propValue = PStr string | PNum real | PPaint paint | PUndefined

datatype command =
    BeginPath
  | FillCmd
  | StrokeCmd
  | SetProp string propValue
  | MoveTo real real
  | LineTo real real
  | ArcTo real real real real real
  | Arc real real real real real bool
  | QuadraticCurveTo real real real real
  | BezierCurveTo real real real real real real
  | Rect real real real real
  | ClosePath

text \<open>
  The private fields of a Graphics object, without their leading underscore. An
  instruction list that is
  \<^verbatim>\<open>null\<close> is \<open>None\<close>; the tests \<^verbatim>\<open>if (this._fillInstructions)\<close> hold
  for every array, also an empty one.
\<close>

record graphics =
  instructions :: "command list"
  oldInstructions :: "command list"
  activeInstructions :: "command list"
  strokeStyleInstructions :: "command list option"
  strokeInstructions :: "command list option"
  fillInstructions :: "command list option"
  active :: bool
  dirty :: bool

text \<open>\<open>push.apply(list, x)\<close> for an instruction list that may be \<^verbatim>\<open>null\<close>.\<close>

definition optl :: "command list option \<Rightarrow> command list" where
  "optl v = (case v of None \<Rightarrow> [] | Some xs \<Rightarrow> xs)"

text \<open>\<^verbatim>\<open>clear\<close>, which is also what the constructor runs.\<close>

definition clear :: "graphics \<Rightarrow> graphics" where
  "clear g = \<lparr>instructions = [], oldInstructions = [], activeInstructions = [],
              strokeStyleInstructions = None, strokeInstructions = None,
              fillInstructions = None, active = False, dirty = False\<rparr>"

definition newGraphics :: graphics where
  "newGraphics = \<lparr>instructions = [], oldInstructions = [], activeInstructions = [],
                  strokeStyleInstructions = None, strokeInstructions = None,
                  fillInstructions = None, active = False, dirty = False\<rparr>"

text \<open>
  \<^verbatim>\<open>_updateInstructions\<close>: the instructions finalized for earlier subpaths, the
  begin command, the fill style, the stroke style and inside the same test the stroke
  appearance, the active path instructions, and the fill and stroke commands.
\<close>

definition updateInstructions :: "graphics \<Rightarrow> graphics" where
  "updateInstructions g =
     g\<lparr>instructions :=
         oldInstructions g @ [BeginPath]
         @ (if fillInstructions g \<noteq> None then optl (fillInstructions g) else [])
         @ (if strokeInstructions g \<noteq> None then
              optl (strokeInstructions g)
              @ (if strokeStyleInstructions g \<noteq> None then optl (strokeStyleInstructions g) else [])
            else [])
         @ activeInstructions g
         @ (if fillInstructions g \<noteq> None then [FillCmd] else [])
         @ (if strokeInstructions g \<noteq> None then [StrokeCmd] else [])\<rparr>"

text \<open>
  \<^verbatim>\<open>draw(ctx)\<close> rebuilds the list when the object is dirty and executes it in
  order. The result is the object, whose \<^verbatim>\<open>_dirty\<close> flag \<^verbatim>\<open>draw\<close> leaves
  as it is, and the Commands executed on the context.
\<close>

definition draw :: "graphics \<Rightarrow> graphics \<times> command list" where
  "draw g = (let g1 = (if dirty g then updateInstructions g else g) in (g1, instructions g1))"

text \<open>\<^verbatim>\<open>_newPath\<close> closes the current subpath.\<close>

definition newPath :: "graphics \<Rightarrow> graphics" where
  "newPath g =
     (let g1 = (if dirty g then updateInstructions g else g)
      in g1\<lparr>oldInstructions := instructions g1, activeInstructions := [],
             active := False, dirty := False\<rparr>)"

text \<open>
  The path methods. \<^verbatim>\<open>moveTo\<close> only records; the others also set
  \<^verbatim>\<open>_dirty\<close> and \<^verbatim>\<open>_active\<close>; \<^verbatim>\<open>closePath\<close> records only on an
  active object.
\<close>

definition pushActive :: "command list \<Rightarrow> graphics \<Rightarrow> graphics" where
  "pushActive cs g = g\<lparr>dirty := True, active := True,
                        activeInstructions := activeInstructions g @ cs\<rparr>"

definition moveTo :: "real \<Rightarrow> real \<Rightarrow> graphics \<Rightarrow> graphics" where
  "moveTo x y g = g\<lparr>activeInstructions := activeInstructions g @ [MoveTo x y]\<rparr>"

definition lineTo :: "real \<Rightarrow> real \<Rightarrow> graphics \<Rightarrow> graphics" where
  "lineTo x y g = pushActive [LineTo x y] g"

definition arcTo :: "real \<Rightarrow> real \<Rightarrow> real \<Rightarrow> real \<Rightarrow> real \<Rightarrow> graphics \<Rightarrow> graphics" where
  "arcTo x1 y1 x2 y2 radius g = pushActive [ArcTo x1 y1 x2 y2 radius] g"

definition arc ::
  "real \<Rightarrow> real \<Rightarrow> real \<Rightarrow> real \<Rightarrow> real \<Rightarrow> bool option \<Rightarrow> graphics \<Rightarrow> graphics" where
  "arc x y radius startAngle endAngle anticlockwise g =
     pushActive [Arc x y radius startAngle endAngle
                   (case anticlockwise of None \<Rightarrow> False | Some b \<Rightarrow> b)] g"

definition quadraticCurveTo :: "real \<Rightarrow> real \<Rightarrow> real \<Rightarrow> real \<Rightarrow> graphics \<Rightarrow> graphics" where
  "quadraticCurveTo cpx cpy x y g = pushActive [QuadraticCurveTo cpx cpy x y] g"

definition bezierCurveTo ::
  "real \<Rightarrow> real \<Rightarrow> real \<Rightarrow> real \<Rightarrow> real \<Rightarrow> real \<Rightarrow> graphics \<Rightarrow> graphics" where
  "bezierCurveTo cp1x cp1y cp2x cp2y x y g = pushActive [BezierCurveTo cp1x cp1y cp2x cp2y x y] g"

definition rect :: "real \<Rightarrow> real \<Rightarrow> real \<Rightarrow> real \<Rightarrow> graphics \<Rightarrow> graphics" where
  "rect x y w h g = pushActive [Rect x y w h] g"

definition closePath :: "graphics \<Rightarrow> graphics" where
  "closePath g =
     (if active g then g\<lparr>dirty := True, activeInstructions := activeInstructions g @ [ClosePath]\<rparr>
      else g)"

text \<open>
  The fill methods end the current subpath when the object is active and then replace
  the fill instructions. \<^verbatim>\<open>beginFill\<close> with a falsy colour (\<^verbatim>\<open>null\<close> or the
  empty string) removes them. The gradient methods take one ratio for each colour.
\<close>

definition endSubpath :: "graphics \<Rightarrow> graphics" where
  "endSubpath g = (if active g then newPath g else g)"

definition beginFill :: "string option \<Rightarrow> graphics \<Rightarrow> graphics" where
  "beginFill color g =
     (endSubpath g)\<lparr>fillInstructions :=
        (case color of
           None \<Rightarrow> None
         | Some c \<Rightarrow> (if c = [] then None else Some [SetProp ''fillStyle'' (PStr c)]))\<rparr>"

definition beginLinearGradientFill ::
  "string list \<Rightarrow> real list \<Rightarrow> real \<Rightarrow> real \<Rightarrow> real \<Rightarrow> real \<Rightarrow> graphics \<Rightarrow> graphics" where
  "beginLinearGradientFill colors ratios x0 y0 x1 y1 g =
     (endSubpath g)\<lparr>fillInstructions :=
        Some [SetProp ''fillStyle'' (PPaint (LinearGradient (zip ratios colors) x0 y0 x1 y1))]\<rparr>"

definition beginRadialGradientFill ::
  "string list \<Rightarrow> real list \<Rightarrow> real \<Rightarrow> real \<Rightarrow> real \<Rightarrow> real \<Rightarrow> real \<Rightarrow> real \<Rightarrow> graphics \<Rightarrow> graphics"
  where
  "beginRadialGradientFill colors ratios x0 y0 r0 x1 y1 r1 g =
     (endSubpath g)\<lparr>fillInstructions :=
        Some [SetProp ''fillStyle'' (PPaint (RadialGradient (zip ratios colors) x0 y0 r0 x1 y1 r1))]\<rparr>"

definition beginBitmapFill :: "nat \<Rightarrow> string option \<Rightarrow> graphics \<Rightarrow> graphics" where
  "beginBitmapFill img repetition g =
     (endSubpath g)\<lparr>fillInstructions :=
        Some [SetProp ''fillStyle''
                (PPaint (Pattern img (case repetition of None \<Rightarrow> [] | Some r \<Rightarrow> r)))]\<rparr>"

definition endFill :: "graphics \<Rightarrow> graphics" where
  "endFill g = beginFill None g"

text \<open>
  \<^verbatim>\<open>setStrokeStyle\<close> replaces the stroke appearance instructions: width, caps,
  joints and miter limit, with their defaults. For caps and joints the code tests
  \<^verbatim>\<open>isNaN\<close>: a string that is not numeric is kept as the name it is; a numeric
  string or a number is used as a property key of \<^verbatim>\<open>STROKE_CAPS_MAP\<close> or
  \<^verbatim>\<open>STROKE_JOINTS_MAP\<close>, and a key that is not the index of an element reads
  \<^verbatim>\<open>undefined\<close>. The three constructors of \<open>styleArg\<close> are these three
  kinds of argument, \<open>NumericString\<close> holding a string that \<^verbatim>\<open>isNaN\<close> rejects.
  The keys of the elements of an array are the decimal numerals of their indices.
\<close>

definition STROKE_CAPS_MAP :: "string list" where
  "STROKE_CAPS_MAP = [''butt'', ''round'', ''square'']"

definition STROKE_JOINTS_MAP :: "string list" where
  "STROKE_JOINTS_MAP = [''miter'', ''round'', ''bevel'']"

datatype styleArg = StyleName string | NumericString string | StyleNumber real

fun lookupNumber :: "string list \<Rightarrow> real \<Rightarrow> propValue" where
  "lookupNumber [] r = PUndefined"
| "lookupNumber (x # xs) r = (if r = 0 then PStr x else lookupNumber xs (r - 1))"

definition lookupKey :: "string list \<Rightarrow> string \<Rightarrow> propValue" where
  "lookupKey table k =
     (case map_of (zip [''0'', ''1'', ''2''] table) k of Some x \<Rightarrow> PStr x | None \<Rightarrow> PUndefined)"

definition mapped :: "string list \<Rightarrow> string \<Rightarrow> styleArg option \<Rightarrow> propValue" where
  "mapped table dflt v =
     (case v of
        None \<Rightarrow> PStr dflt
      | Some (StyleName name) \<Rightarrow> PStr name
      | Some (NumericString k) \<Rightarrow> lookupKey table k
      | Some (StyleNumber r) \<Rightarrow> lookupNumber table r)"

definition setStrokeStyle ::
  "real option \<Rightarrow> styleArg option \<Rightarrow> styleArg option \<Rightarrow> real option
     \<Rightarrow> graphics \<Rightarrow> graphics" where
  "setStrokeStyle thickness caps joints miterLimit g =
     (endSubpath g)\<lparr>strokeStyleInstructions :=
        Some [SetProp ''lineWidth'' (case thickness of None \<Rightarrow> PStr ''1'' | Some t \<Rightarrow> PNum t),
              SetProp ''lineCap'' (mapped STROKE_CAPS_MAP ''butt'' caps),
              SetProp ''lineJoin'' (mapped STROKE_JOINTS_MAP ''miter'' joints),
              SetProp ''miterLimit'' (case miterLimit of None \<Rightarrow> PStr ''10'' | Some l \<Rightarrow> PNum l)]\<rparr>"

text \<open>The stroke methods mirror the fill methods.\<close>

definition beginStroke :: "string option \<Rightarrow> graphics \<Rightarrow> graphics" where
  "beginStroke color g =
     (endSubpath g)\<lparr>strokeInstructions :=
        (case color of
           None \<Rightarrow> None
         | Some c \<Rightarrow> (if c = [] then None else Some [SetProp ''strokeStyle'' (PStr c)]))\<rparr>"

definition beginLinearGradientStroke ::
  "string list \<Rightarrow> real list \<Rightarrow> real \<Rightarrow> real \<Rightarrow> real \<Rightarrow> real \<Rightarrow> graphics \<Rightarrow> graphics" where
  "beginLinearGradientStroke colors ratios x0 y0 x1 y1 g =
     (endSubpath g)\<lparr>strokeInstructions :=
        Some [SetProp ''strokeStyle'' (PPaint (LinearGradient (zip ratios colors) x0 y0 x1 y1))]\<rparr>"

definition beginRadialGradientStroke ::
  "string list \<Rightarrow> real list \<Rightarrow> real \<Rightarrow> real \<Rightarrow> real \<Rightarrow> real \<Rightarrow> real \<Rightarrow> real \<Rightarrow> graphics \<Rightarrow> graphics"
  where
  "beginRadialGradientStroke colors ratios x0 y0 r0 x1 y1 r1 g =
     (endSubpath g)\<lparr>strokeInstructions :=
        Some [SetProp ''strokeStyle'' (PPaint (RadialGradient (zip ratios colors) x0 y0 r0 x1 y1 r1))]\<rparr>"

definition beginBitmapStroke :: "nat \<Rightarrow> string option \<Rightarrow> graphics \<Rightarrow> graphics" where
  "beginBitmapStroke img repetition g =
     (endSubpath g)\<lparr>strokeInstructions :=
        Some [SetProp ''strokeStyle''
                (PPaint (Pattern img (case repetition of None \<Rightarrow> [] | Some r \<Rightarrow> r)))]\<rparr>"

definition endStroke :: "graphics \<Rightarrow> graphics" where
  "endStroke g = beginStroke None g"

text \<open>The shape methods push several path Commands at once.\<close>

definition drawRoundRectComplex ::
  "real \<Rightarrow> real \<Rightarrow> real \<Rightarrow> real \<Rightarrow> real \<Rightarrow> real \<Rightarrow> real \<Rightarrow> real \<Rightarrow> graphics \<Rightarrow> graphics" where
  "drawRoundRectComplex x y w h radiusTL radiusTR radiusBR radiusBL g =
     pushActive
       [MoveTo (x + radiusTL) y,
        LineTo (x + w - radiusTR) y,
        Arc (x + w - radiusTR) (y + radiusTR) radiusTR (- pi / 2) 0 False,
        LineTo (x + w) (y + h - radiusBR),
        Arc (x + w - radiusBR) (y + h - radiusBR) radiusBR 0 (pi / 2) False,
        LineTo (x + radiusBL) (y + h),
        Arc (x + radiusBL) (y + h - radiusBL) radiusBL (pi / 2) pi False,
        LineTo x (y + radiusTL),
        Arc (x + radiusTL) (y + radiusTL) radiusTL pi (pi * 3 / 2) False] g"

definition drawRoundRect :: "real \<Rightarrow> real \<Rightarrow> real \<Rightarrow> real \<Rightarrow> real \<Rightarrow> graphics \<Rightarrow> graphics" where
  "drawRoundRect x y w h radius g = drawRoundRectComplex x y w h radius radius radius radius g"

definition drawCircle :: "real \<Rightarrow> real \<Rightarrow> real \<Rightarrow> graphics \<Rightarrow> graphics" where
  "drawCircle x y radius g = arc x y radius 0 (pi * 2) None g"

definition drawEllipse :: "real \<Rightarrow> real \<Rightarrow> real \<Rightarrow> real \<Rightarrow> graphics \<Rightarrow> graphics" where
  "drawEllipse x y w h g =
     (let k = 5522848 / 10000000;
          ox = (w / 2) * k;
          oy = (h / 2) * k;
          xe = x + w;
          ye = y + h;
          xm = x + w / 2;
          ym = y + h / 2
      in pushActive
           [MoveTo x ym,
            BezierCurveTo x (ym - oy) (xm - ox) y xm y,
            BezierCurveTo (xm + ox) y xe (ym - oy) xe ym,
            BezierCurveTo xe (ym + oy) (xm + ox) ye xm ye,
            BezierCurveTo (xm - ox) ye x (ym + oy) x ym] g)"

text \<open>
  \<^verbatim>\<open>drawPolyStar\<close>: the loop adds, for each side, an inner point (unless the
  shape is a plain polygon) and an outer point. The number of sides is a natural number.
\<close>

fun polyStarSides ::
  "nat \<Rightarrow> real \<Rightarrow> real \<Rightarrow> real \<Rightarrow> real \<Rightarrow> real \<Rightarrow> real \<Rightarrow> command list" where
  "polyStarSides 0 x y radius pointSize a angle = []"
| "polyStarSides (Suc n) x y radius pointSize a angle =
     (if pointSize \<noteq> 1
      then [LineTo (x + cos (angle + a) * radius * pointSize)
                   (y + sin (angle + a) * radius * pointSize)]
      else [])
     @ [LineTo (x + cos (angle + a + a) * radius) (y + sin (angle + a + a) * radius)]
     @ polyStarSides n x y radius pointSize a (angle + a + a)"

definition drawPolyStar ::
  "real \<Rightarrow> real \<Rightarrow> real \<Rightarrow> nat \<Rightarrow> real option \<Rightarrow> real option \<Rightarrow> graphics \<Rightarrow> graphics" where
  "drawPolyStar x y radius sides pointSize angle g =
     (let ps = 1 - (case pointSize of None \<Rightarrow> 0 | Some p \<Rightarrow> p);
          ang = (case angle of None \<Rightarrow> 0 | Some d \<Rightarrow> d / (180 / pi));
          a = pi / real sides
      in pushActive
           (MoveTo (x + cos ang * radius) (y + sin ang * radius)
            # polyStarSides sides x y radius ps a ang) g)"

text \<open>
  One call of the public interface, and the object after a sequence of calls on a new
  Graphics object. \<^verbatim>\<open>curveTo\<close> and \<^verbatim>\<open>drawRect\<close> are other names of
  \<^verbatim>\<open>quadraticCurveTo\<close> and \<^verbatim>\<open>rect\<close>.
\<close>

datatype gcall =
    CallMoveTo real real
  | CallLineTo real real
  | CallArcTo real real real real real
  | CallArc real real real real real "bool option"
  | CallQuadraticCurveTo real real real real
  | CallBezierCurveTo real real real real real real
  | CallRect real real real real
  | CallClosePath
  | CallClear
  | CallBeginFill "string option"
  | CallBeginLinearGradientFill "string list" "real list" real real real real
  | CallBeginRadialGradientFill "string list" "real list" real real real real real real
  | CallBeginBitmapFill nat "string option"
  | CallEndFill
  | CallSetStrokeStyle "real option" "styleArg option" "styleArg option" "real option"
  | CallBeginStroke "string option"
  | CallBeginLinearGradientStroke "string list" "real list" real real real real
  | CallBeginRadialGradientStroke "string list" "real list" real real real real real real
  | CallBeginBitmapStroke nat "string option"
  | CallEndStroke
  | CallDrawRoundRect real real real real real
  | CallDrawRoundRectComplex real real real real real real real real
  | CallDrawCircle real real real
  | CallDrawEllipse real real real real
  | CallDrawPolyStar real real real nat "real option" "real option"
  | CallDraw

fun call :: "gcall \<Rightarrow> graphics \<Rightarrow> graphics" where
  "call (CallMoveTo x y) g = moveTo x y g"
| "call (CallLineTo x y) g = lineTo x y g"
| "call (CallArcTo x1 y1 x2 y2 r) g = arcTo x1 y1 x2 y2 r g"
| "call (CallArc x y r s e acw) g = arc x y r s e acw g"
| "call (CallQuadraticCurveTo cpx cpy x y) g = quadraticCurveTo cpx cpy x y g"
| "call (CallBezierCurveTo c1x c1y c2x c2y x y) g = bezierCurveTo c1x c1y c2x c2y x y g"
| "call (CallRect x y w h) g = rect x y w h g"
| "call CallClosePath g = closePath g"
| "call CallClear g = clear g"
| "call (CallBeginFill color) g = beginFill color g"
| "call (CallBeginLinearGradientFill cs rs x0 y0 x1 y1) g =
     beginLinearGradientFill cs rs x0 y0 x1 y1 g"
| "call (CallBeginRadialGradientFill cs rs x0 y0 r0 x1 y1 r1) g =
     beginRadialGradientFill cs rs x0 y0 r0 x1 y1 r1 g"
| "call (CallBeginBitmapFill img rep) g = beginBitmapFill img rep g"
| "call CallEndFill g = endFill g"
| "call (CallSetStrokeStyle t caps joints ml) g = setStrokeStyle t caps joints ml g"
| "call (CallBeginStroke color) g = beginStroke color g"
| "call (CallBeginLinearGradientStroke cs rs x0 y0 x1 y1) g =
     beginLinearGradientStroke cs rs x0 y0 x1 y1 g"
| "call (CallBeginRadialGradientStroke cs rs x0 y0 r0 x1 y1 r1) g =
     beginRadialGradientStroke cs rs x0 y0 r0 x1 y1 r1 g"
| "call (CallBeginBitmapStroke img rep) g = beginBitmapStroke img rep g"
| "call CallEndStroke g = endStroke g"
| "call (CallDrawRoundRect x y w h r) g = drawRoundRect x y w h r g"
| "call (CallDrawRoundRectComplex x y w h rtl rtr rbr rbl) g =
     drawRoundRectComplex x y w h rtl rtr rbr rbl g"
| "call (CallDrawCircle x y r) g = drawCircle x y r g"
| "call (CallDrawEllipse x y w h) g = drawEllipse x y w h g"
| "call (CallDrawPolyStar x y r sides ps ang) g = drawPolyStar x y r sides ps ang g"
| "call CallDraw g = fst (draw g)"

definition recorded :: "gcall list \<Rightarrow> graphics" where
  "recorded cs = fold call cs newGraphics"

text \<open>The four groups of instructions, told apart by what a Command does.\<close>

fun is_fill_style :: "command \<Rightarrow> bool" where
  "is_fill_style (SetProp n v) = (n = ''fillStyle'')"
| "is_fill_style _ = False"

fun is_stroke_style :: "command \<Rightarrow> bool" where
  "is_stroke_style (SetProp n v) = (n = ''strokeStyle'')"
| "is_stroke_style _ = False"

fun is_stroke_appearance :: "command \<Rightarrow> bool" where
  "is_stroke_appearance (SetProp n v) =
     (n = ''lineWidth'' \<or> n = ''lineCap'' \<or> n = ''lineJoin'' \<or> n = ''miterLimit'')"
| "is_stroke_appearance _ = False"

fun is_path :: "command \<Rightarrow> bool" where
  "is_path BeginPath = False"
| "is_path FillCmd = False"
| "is_path StrokeCmd = False"
| "is_path (SetProp n v) = False"
| "is_path _ = True"

text \<open>
  What every Graphics object reached through the public methods satisfies: each of the
  three style lists holds Commands of its own group only, the active list holds path
  Commands only, and the two finalized lists are empty or start with the begin command.
\<close>

definition well_formed :: "graphics \<Rightarrow> bool" where
  "well_formed g \<longleftrightarrow>
     list_all is_fill_style (optl (fillInstructions g)) \<and>
     list_all is_stroke_style (optl (strokeInstructions g)) \<and>
     list_all is_stroke_appearance (optl (strokeStyleInstructions g)) \<and>
     list_all is_path (activeInstructions g) \<and>
     (oldInstructions g = [] \<or> hd (oldInstructions g) = BeginPath) \<and>
     (instructions g = [] \<or> hd (instructions g) = BeginPath)"

text \<open>
  A filled and stroked triangle, recorded with the style calls in another order than the
  replay order and with the fill chosen after the first \<^verbatim>\<open>moveTo\<close>.
\<close>

definition triangle_calls :: "gcall list" where
  "triangle_calls =
     [CallSetStrokeStyle (Some 2) None None None, CallBeginStroke (Some ''#F00''),
      CallMoveTo 0 0, CallBeginFill (Some ''#00F''),
      CallLineTo 10 0, CallLineTo 10 10, CallClosePath]"

section \<open>The display list and drawing on a canvas context\<close>

text \<open>
  Drawing and hit testing walk the display list from a Container down. For the walks the
  display list is a tree: a leaf with its own fields, or a Container with its fields and
  its children in paint order. The fields are those the walks read: the visibility
  inputs, \<^verbatim>\<open>mouseEnabled\<close>, \<^verbatim>\<open>compositeOperation\<close>, whether a cache canvas
  exists (\<open>cached\<close>), whether the private field \<^verbatim>\<open>_matrix\<close> holds a matrix
  (\<open>hasMatrix\<close>), and whether each of the five mouse handlers is set. \<open>ident\<close> names
  the object.

  \<^verbatim>\<open>_matrix\<close> is \<^verbatim>\<open>null\<close> on the prototype and is assigned in one place,
  \<^verbatim>\<open>DisplayObject.prototype.initialize\<close>. Bitmap, BitmapSequence and DOMElement
  call it on the new object. \<^verbatim>\<open>Container.prototype.initialize\<close> calls it as
  \<^verbatim>\<open>initialize.call()\<close>, with no receiver, so the matrix lands on the global object
  and a Container leaves its constructor with \<open>hasMatrix\<close> false. Both states of the
  field are part of the model.
\<close>

record props =
  ident :: nat
  visible :: bool
  alpha :: real
  scaleX :: real
  scaleY :: real
  mouseEnabled :: bool
  compositeOperation :: "string option"
  cached :: bool
  hasMatrix :: bool
  onPress :: bool
  onClick :: bool
  onDoubleClick :: bool
  onMouseOver :: bool
  onMouseOut :: bool

text \<open>
  What a leaf class adds. The base class adds nothing. A Bitmap has its
  \<^verbatim>\<open>image\<close> field, which is \<^verbatim>\<open>null\<close> (\<open>None\<close>) or an image that is
  loaded or not (\<^verbatim>\<open>image.complete || image.getContext\<close>). A BitmapSequence has
  a sprite sheet with an image, loaded or not, and its playback fields. A DOMElement
  has its HTML element or not.
\<close>

datatype leafKind =
    PlainObject
  | BitmapLeaf "bool option"
  | BitmapSequenceLeaf bool bitmapSequence
  | DOMElementLeaf bool

datatype dobj = Leaf props leafKind | Container props "dobj list"

fun propsOf :: "dobj \<Rightarrow> props" where
  "propsOf (Leaf p k) = p"
| "propsOf (Container p cs) = p"

fun isContainer :: "dobj \<Rightarrow> bool" where
  "isContainer (Leaf p k) = False"
| "isContainer (Container p cs) = True"

text \<open>\<^verbatim>\<open>isVisible\<close> of DisplayObject and its overrides.\<close>

definition baseVisible :: "props \<Rightarrow> bool" where
  "baseVisible p \<longleftrightarrow> visible p \<and> alpha p > 0 \<and> scaleX p \<noteq> 0 \<and> scaleY p \<noteq> 0"

fun isVisible :: "dobj \<Rightarrow> bool" where
  "isVisible (Container p cs) =
     (visible p \<and> alpha p > 0 \<and> cs \<noteq> [] \<and> scaleX p \<noteq> 0 \<and> scaleY p \<noteq> 0)"
| "isVisible (Leaf p PlainObject) = baseVisible p"
| "isVisible (Leaf p (BitmapLeaf img)) = (baseVisible p \<and> img = Some True)"
| "isVisible (Leaf p (BitmapSequenceLeaf loaded s)) =
     (baseVisible p \<and> currentFrame s \<ge> 0 \<and> loaded)"
| "isVisible (Leaf p (DOMElementLeaf element)) = element"

text \<open>
  A canvas with its 2D context: the size in pixels, the current transform, the current
  \<^verbatim>\<open>globalCompositeOperation\<close> and the list of the calls that changed pixels since
  the canvas was last sized, oldest first. A transform is given by six coefficients
  (\<^verbatim>\<open>setTransform(a, b, c, d, tx, ty)\<close>), or it is the matrix that
  \<^verbatim>\<open>Container.draw\<close> or the hit test concatenates for an object from positions,
  scales, rotations and skews; those fields are not part of the model and such a
  transform is named by the object. Every pixel call records the transform in force,
  and a \<^verbatim>\<open>drawImage\<close> records the object that issued it and the composite rule in
  force. Filters are objects of the caller, named by numbers.
\<close>

datatype ctxTransform =
    Coefficients real real real real real real
  | ConcatenatedMatrix nat

datatype pixelCall =
    ClearRect ctxTransform real real real real
  | DrawImage nat ctxTransform string
  | ApplyFilter nat real real real real

record canvas =
  canvasWidth :: nat
  canvasHeight :: nat
  transform :: ctxTransform
  globalCompositeOperation :: string
  pixelCalls :: "pixelCall list"



definition drawImage :: "nat \<Rightarrow> canvas \<Rightarrow> canvas" where
  "drawImage n ctx =
     ctx\<lparr>pixelCalls := pixelCalls ctx @ [DrawImage n (transform ctx) (globalCompositeOperation ctx)]\<rparr>"

text \<open>
  \<^verbatim>\<open>DisplayObject.prototype.draw(ctx, ignoreCache)\<close>: the cache canvas is painted
  and \<^verbatim>\<open>true\<close> returned, unless the cache is to be ignored or there is none; then
  nothing is painted and \<^verbatim>\<open>false\<close> is returned.
\<close>

definition displayObjectDraw :: "bool \<Rightarrow> props \<Rightarrow> canvas \<Rightarrow> bool \<times> canvas" where
  "displayObjectDraw ignoreCache p ctx =
     (if ignoreCache \<or> \<not> cached p then (False, ctx) else (True, drawImage (ident p) ctx))"

text \<open>
  The overrides of the leaf classes. Each returns the exception it raised, if any, and
  the context as it is then.

  Bitmap: the base method first; if that did not paint, \<^verbatim>\<open>ctx.drawImage(this.image, 0, 0)\<close>,
  which is a TypeError for \<^verbatim>\<open>null\<close> and puts pixels on the canvas when the image
  is loaded.

  BitmapSequence: the base method first; if that did not paint, the rectangle of the
  current frame is asked for, which normalizes the frame and may raise; the frame is
  painted when there is a rectangle, its left edge is a number and the image is loaded.
  The normalized playback fields are not read again by the walks and are dropped.

  DOMElement: nothing without the HTML element; otherwise the styles of the element are
  set from \<^verbatim>\<open>this._matrix\<close>, a TypeError when that is \<^verbatim>\<open>null\<close>. Nothing is
  put on the canvas and the base method is not called.
\<close>

definition bitmapDraw :: "bool \<Rightarrow> props \<Rightarrow> bool option \<Rightarrow> canvas \<Rightarrow> error option \<times> canvas" where
  "bitmapDraw ignoreCache p img ctx =
     (case displayObjectDraw ignoreCache p ctx of
        (True, ctx1) \<Rightarrow> (None, ctx1)
      | (False, ctx1) \<Rightarrow>
          (case img of
             None \<Rightarrow> (Some TypeError, ctx1)
           | Some loaded \<Rightarrow> (None, if loaded then drawImage (ident p) ctx1 else ctx1)))"

definition bitmapSequenceDraw ::
  "bool \<Rightarrow> props \<Rightarrow> bool \<Rightarrow> bitmapSequence \<Rightarrow> canvas \<Rightarrow> error option \<times> canvas" where
  "bitmapSequenceDraw ignoreCache p loaded s ctx =
     (case displayObjectDraw ignoreCache p ctx of
        (True, ctx1) \<Rightarrow> (None, ctx1)
      | (False, ctx1) \<Rightarrow>
          (case getCurrentFrameRect s of
             Inl err \<Rightarrow> (Some err, ctx1)
           | Inr (Some (Rectangle (Some x) y w h), s1) \<Rightarrow>
               (None, if loaded then drawImage (ident p) ctx1 else ctx1)
           | Inr (Some (Rectangle None y w h), s1) \<Rightarrow> (None, ctx1)
           | Inr (None, s1) \<Rightarrow> (None, ctx1)))"

definition domElementDraw :: "props \<Rightarrow> bool \<Rightarrow> canvas \<Rightarrow> error option \<times> canvas" where
  "domElementDraw p element ctx =
     (if \<not> element then (None, ctx)
      else if \<not> hasMatrix p then (Some TypeError, ctx)
      else (None, ctx))"

fun leafDraw :: "bool \<Rightarrow> props \<Rightarrow> leafKind \<Rightarrow> canvas \<Rightarrow> error option \<times> canvas" where
  "leafDraw ignoreCache p PlainObject ctx = (None, snd (displayObjectDraw ignoreCache p ctx))"
| "leafDraw ignoreCache p (BitmapLeaf img) ctx = bitmapDraw ignoreCache p img ctx"
| "leafDraw ignoreCache p (BitmapSequenceLeaf loaded s) ctx = bitmapSequenceDraw ignoreCache p loaded s ctx"
| "leafDraw ignoreCache p (DOMElementLeaf element) ctx = domElementDraw p element ctx"

text \<open>
  \<^verbatim>\<open>Container.prototype.draw(ctx, ignoreCache, _mtx)\<close>. \<open>drawObject\<close> is the call
  \<^verbatim>\<open>draw(ctx, ignoreCache, _mtx)\<close> on any object; the leaf classes ignore the third
  argument. Of the matrix \<^verbatim>\<open>_mtx\<close> the model keeps its
  \<^verbatim>\<open>compositeOperation\<close>: the argument is \<open>None\<close> when no matrix is passed and
  \<open>Some c\<close> for a matrix whose \<^verbatim>\<open>compositeOperation\<close> is \<open>c\<close>.

  A Container first tries the base method. Then \<^verbatim>\<open>_mtx = _mtx || this._matrix.reinitialize(...)\<close>:
  without an argument the matrix of the Container is read, a TypeError when it is
  \<^verbatim>\<open>null\<close>, and takes the \<^verbatim>\<open>compositeOperation\<close> of the Container.
  \<open>drawChildren\<close> is the loop, first child first. A child whose
  \<^verbatim>\<open>isVisible()\<close> fails is passed over. For the others
  \<^verbatim>\<open>child._matrix.reinitialize(...)\<close> is a TypeError when the child has no matrix;
  \<^verbatim>\<open>appendProperties\<close> gives the matrix of the child the
  \<^verbatim>\<open>compositeOperation\<close> of the child or else the inherited one; unless the child
  is a Container without a cache, the context gets the transform of the child and the
  rule \<^verbatim>\<open>mtx.compositeOperation || "source-over"\<close>; then the child is drawn with
  its matrix. Opacity and shadow are inherited and set in the same way and are not
  represented. \<^verbatim>\<open>mouseEnabled\<close> is not read.
\<close>

fun drawObject :: "bool \<Rightarrow> string option option \<Rightarrow> dobj \<Rightarrow> canvas \<Rightarrow> error option \<times> canvas"
and drawChildren :: "string option \<Rightarrow> dobj list \<Rightarrow> canvas \<Rightarrow> error option \<times> canvas"
where
  "drawObject ignoreCache mtx (Leaf p k) ctx = leafDraw ignoreCache p k ctx"
| "drawObject ignoreCache mtx (Container p cs) ctx =
     (case displayObjectDraw ignoreCache p ctx of
        (True, ctx1) \<Rightarrow> (None, ctx1)
      | (False, ctx1) \<Rightarrow>
          (case mtx of
             Some inherited \<Rightarrow> drawChildren inherited cs ctx1
           | None \<Rightarrow>
               (if hasMatrix p then drawChildren (compositeOperation p) cs ctx1
                else (Some TypeError, ctx1))))"
| "drawChildren inherited [] ctx = (None, ctx)"
| "drawChildren inherited (child # rest) ctx =
     (if \<not> isVisible child then drawChildren inherited rest ctx
      else if \<not> hasMatrix (propsOf child) then (Some TypeError, ctx)
      else
        (let rule = (if truthy_string (compositeOperation (propsOf child))
                     then compositeOperation (propsOf child) else inherited);
             ctx1 = (if isContainer child \<and> \<not> cached (propsOf child) then ctx
                     else ctx\<lparr>transform := ConcatenatedMatrix (ident (propsOf child)),
                              globalCompositeOperation :=
                                (case rule of
                                   Some r \<Rightarrow> (if r \<noteq> [] then r else ''source-over'')
                                 | None \<Rightarrow> ''source-over'')\<rparr>)
         in case drawObject False (Some rule) child ctx1 of
              (Some err, ctx2) \<Rightarrow> (Some err, ctx2)
            | (None, ctx2) \<Rightarrow> drawChildren inherited rest ctx2))"

section \<open>Container: the objects under a point\<close>

text \<open>
  \<^verbatim>\<open>hasHandler\<close> in \<^verbatim>\<open>_getObjectsUnderPoint\<close>: bit 1 of
  \<^verbatim>\<open>mouseEvents\<close> asks for the press handlers, bit 2 for the over and out
  handlers. A missing \<^verbatim>\<open>mouseEvents\<close> behaves as 0.
\<close>

definition pressHandlers :: "props \<Rightarrow> bool" where
  "pressHandlers p \<longleftrightarrow> onPress p \<or> onClick p \<or> onDoubleClick p"

definition overHandlers :: "props \<Rightarrow> bool" where
  "overHandlers p \<longleftrightarrow> onMouseOver p \<or> onMouseOut p"

definition hasHandler :: "nat \<Rightarrow> props \<Rightarrow> bool" where
  "hasHandler mouseEvents p \<longleftrightarrow>
     (bit mouseEvents 0 \<and> pressHandlers p) \<or> (bit mouseEvents 1 \<and> overHandlers p)"

text \<open>
  The probe is the one pixel canvas \<^verbatim>\<open>_hitTestCanvas\<close>. An object is tested by
  setting the transform of the probe to the concatenated matrix of the object, moved by
  the point, drawing the object (\<^verbatim>\<open>draw(ctx)\<close>, with no further argument) and
  reading the pixel. \<open>drawsOnProbe\<close> is the drawing: the exception it raised, or whether
  it put anything on the probe.

  \<^verbatim>\<open>_testHit\<close> reads the pixel. The read returns the opacity or is refused for
  cross-domain content; \<open>pixel\<close> is \<open>Some h\<close> with \<open>h\<close> telling whether the
  opacity exceeds 1, or \<open>None\<close> for the refusal. A refusal is thrown on as a string
  unless \<^verbatim>\<open>suppressCrossDomainErrors\<close> is set, in which case the result is
  \<^verbatim>\<open>undefined\<close>, which the callers take as no hit.

  The point is fixed. \<open>hit n\<close> is the outcome of the read after object \<open>n\<close> put
  its pixels on the probe. An object that puts nothing there is no hit: the probe is
  sized anew after every hit, and what the misses before left at the point is taken to
  stay a miss.
\<close>

definition probe :: canvas where
  "probe = \<lparr>canvasWidth = 1, canvasHeight = 1, transform = Coefficients 1 0 0 1 0 0,
            globalCompositeOperation = ''source-over'', pixelCalls = []\<rparr>"

definition drawsOnProbe :: "dobj \<Rightarrow> error + bool" where
  "drawsOnProbe obj =
     (case drawObject False None obj (probe\<lparr>transform := ConcatenatedMatrix (ident (propsOf obj))\<rparr>) of
        (Some err, ctx) \<Rightarrow> Inl err
      | (None, ctx) \<Rightarrow> Inr (pixelCalls ctx \<noteq> []))"

definition testHit :: "bool \<Rightarrow> bool option \<Rightarrow> error + bool" where
  "testHit suppressCrossDomainErrors pixel =
     (case pixel of
        Some h \<Rightarrow> Inr h
      | None \<Rightarrow>
          (if suppressCrossDomainErrors then Inr False
           else Inl (Thrown (''An error has occured. This is most likely due to security restrictions '' @
                             ''on reading canvas pixel data with local or cross-domain images.''))))"

definition drawAndTest :: "bool \<Rightarrow> (nat \<Rightarrow> bool option) \<Rightarrow> dobj \<Rightarrow> error + bool" where
  "drawAndTest suppress hit obj =
     (case drawsOnProbe obj of
        Inl err \<Rightarrow> Inl err
      | Inr painted \<Rightarrow> testHit suppress (if painted then hit (ident (propsOf obj)) else Some False))"

text \<open>
  \<^verbatim>\<open>_getObjectsUnderPoint(x, y, arr, mouseEvents)\<close> on the Container with fields
  \<open>p\<close> and children \<open>cs\<close>. The result is the exception raised, or the returned
  value, an array or \<^verbatim>\<open>null\<close> (\<open>None\<close>), together with \<^verbatim>\<open>arr\<close> after
  the call, which is \<open>None\<close> when no array was passed.

  The method starts with \<^verbatim>\<open>var mtx = this._matrix\<close>. Both places that test an
  object pass \<^verbatim>\<open>mtx\<close> to \<^verbatim>\<open>getConcatenatedMatrix\<close>, which fills the matrix it
  is given or makes a new one when given \<^verbatim>\<open>null\<close>, and then read
  \<^verbatim>\<open>mtx.a\<close>: on a Container without a matrix that is a TypeError, in the test of
  its own cache and in the test of each child that is not a Container.

  The source loops from the last child down to the first. \<open>childrenLoop\<close> on
  \<open>child # upper\<close> therefore runs the children \<open>upper\<close>, which lie above
  \<open>child\<close>, first and visits \<open>child\<close> only if none of them returned or raised. Its
  first component is the array returned from inside the loop, or \<open>None\<close> when the loop
  ran to its end.
\<close>

fun getObjectsUnderPointRec ::
  "bool \<Rightarrow> (nat \<Rightarrow> bool option) \<Rightarrow> props \<Rightarrow> dobj list \<Rightarrow> dobj list option \<Rightarrow> nat
     \<Rightarrow> error + dobj list option \<times> dobj list option"
and childrenLoop ::
  "bool \<Rightarrow> (nat \<Rightarrow> bool option) \<Rightarrow> dobj \<Rightarrow> bool \<Rightarrow> dobj list \<Rightarrow> dobj list option \<Rightarrow> nat
     \<Rightarrow> error + dobj list option \<times> dobj list option"
where
  "getObjectsUnderPointRec suppress hit p cs arr mouseEvents =
     (if cached p then
        (if \<not> hasMatrix p then Inl TypeError
         else case drawAndTest suppress hit (Container p cs) of
                Inl err \<Rightarrow> Inl err
              | Inr False \<Rightarrow> Inr (Some [], arr)
              | Inr True \<Rightarrow>
                  (if hasHandler mouseEvents p then Inr (Some [Container p cs], arr)
                   else childrenLoop suppress hit (Container p cs) (hasHandler mouseEvents p)
                          cs arr mouseEvents))
      else childrenLoop suppress hit (Container p cs) (hasHandler mouseEvents p) cs arr mouseEvents)"
| "childrenLoop suppress hit this handler [] arr mouseEvents = Inr (None, arr)"
| "childrenLoop suppress hit this handler (child # upper) arr mouseEvents =
     (case childrenLoop suppress hit this handler upper arr mouseEvents of
        Inl err \<Rightarrow> Inl err
      | Inr (Some returned, arr1) \<Rightarrow> Inr (Some returned, arr1)
      | Inr (None, arr1) \<Rightarrow>
          (if \<not> isVisible child \<or> \<not> mouseEnabled (propsOf child) then Inr (None, arr1)
           else case child of
             Container q ds \<Rightarrow>
               (if handler then
                  (case getObjectsUnderPointRec suppress hit q ds None 0 of
                     Inl err \<Rightarrow> Inl err
                   | Inr (Some result, arr2) \<Rightarrow> Inr (Some [this], arr1)
                   | Inr (None, arr2) \<Rightarrow> Inr (None, arr1))
                else
                  (case getObjectsUnderPointRec suppress hit q ds arr1 mouseEvents of
                     Inl err \<Rightarrow> Inl err
                   | Inr (result, arr2) \<Rightarrow>
                       (if arr1 = None \<and> result \<noteq> None then Inr (result, arr2)
                        else Inr (None, arr2))))
           | Leaf q k \<Rightarrow>
               (if mouseEvents = 0 \<or> handler \<or> (bit mouseEvents 0 \<and> pressHandlers q)
                   \<or> (bit mouseEvents 1 \<and> overHandlers q) then
                  (if \<not> hasMatrix (propsOf this) then Inl TypeError
                   else case drawAndTest suppress hit child of
                          Inl err \<Rightarrow> Inl err
                        | Inr False \<Rightarrow> Inr (None, arr1)
                        | Inr True \<Rightarrow>
                            (if handler then Inr (Some [this], arr1)
                             else case arr1 of
                                    Some a \<Rightarrow> Inr (None, Some (a @ [child]))
                                  | None \<Rightarrow> Inr (Some [child], arr1)))
                else Inr (None, arr1))))"

text \<open>
  \<^verbatim>\<open>getObjectsUnderPoint\<close> passes a new array and returns it.
  \<^verbatim>\<open>getObjectUnderPoint\<close> reads element 0 of the returned value: of
  \<^verbatim>\<open>null\<close> that is a TypeError, of an empty array it is \<^verbatim>\<open>undefined\<close>,
  which \<^verbatim>\<open>|| null\<close> turns into \<^verbatim>\<open>null\<close>. Both first convert the point
  with \<^verbatim>\<open>localToGlobal\<close>, which works on a matrix of its own when the Container
  has none and does not raise.
\<close>

definition getObjectsUnderPoint ::
  "bool \<Rightarrow> (nat \<Rightarrow> bool option) \<Rightarrow> props \<Rightarrow> dobj list \<Rightarrow> error + dobj list" where
  "getObjectsUnderPoint suppress hit p cs =
     (case getObjectsUnderPointRec suppress hit p cs (Some []) 0 of
        Inl err \<Rightarrow> Inl err
      | Inr (result, Some arr) \<Rightarrow> Inr arr
      | Inr (result, None) \<Rightarrow> Inr [])"

definition getObjectUnderPoint ::
  "bool \<Rightarrow> (nat \<Rightarrow> bool option) \<Rightarrow> props \<Rightarrow> dobj list \<Rightarrow> error + dobj option" where
  "getObjectUnderPoint suppress hit p cs =
     (case getObjectsUnderPointRec suppress hit p cs None 0 of
        Inl err \<Rightarrow> Inl err
      | Inr (None, arr) \<Rightarrow> Inl TypeError
      | Inr (Some [], arr) \<Rightarrow> Inr None
      | Inr (Some (front # rest), arr) \<Rightarrow> Inr (Some front))"

text \<open>
  An object that point queries may return: it takes mouse events and its
  \<^verbatim>\<open>isVisible()\<close> holds. \<open>all_reachable\<close> lifts this to a returned value
  or an array argument.
\<close>

definition reachable :: "dobj \<Rightarrow> bool" where
  "reachable n \<longleftrightarrow> mouseEnabled (propsOf n) \<and> isVisible n"

definition all_reachable :: "dobj list option \<Rightarrow> bool" where
  "all_reachable v \<longleftrightarrow> (case v of None \<Rightarrow> True | Some xs \<Rightarrow> list_all reachable xs)"

text \<open>
  Whether the own \<^verbatim>\<open>draw\<close> of an object puts pixels on a canvas when the object is
  drawn as a child: its cache if it has one (a DOMElement never looks at it), the image
  of a Bitmap if loaded, the current frame of a BitmapSequence if there is one with a
  numeric left edge and the image is loaded.
\<close>

fun paintsItself :: "dobj \<Rightarrow> bool" where
  "paintsItself (Container p cs) = cached p"
| "paintsItself (Leaf p PlainObject) = cached p"
| "paintsItself (Leaf p (BitmapLeaf img)) = (cached p \<or> img = Some True)"
| "paintsItself (Leaf p (BitmapSequenceLeaf loaded s)) =
     (cached p \<or>
      (loaded \<and> (case getCurrentFrameRect s of
                    Inr (Some (Rectangle (Some x) y w h), s1) \<Rightarrow> True
                  | _ \<Rightarrow> False)))"
| "paintsItself (Leaf p (DOMElementLeaf element)) = False"

text \<open>
  Two scenes. In both, two loaded Bitmaps overlap at the point and the upper one, 2,
  does not take mouse events. In the first the Container is as its constructor leaves
  it, without a matrix; in the second it has one.
\<close>

definition bitmapProps :: "nat \<Rightarrow> bool \<Rightarrow> props" where
  "bitmapProps n enabled =
     \<lparr>ident = n, visible = True, alpha = 1, scaleX = 1, scaleY = 1, mouseEnabled = enabled,
      compositeOperation = None, cached = False, hasMatrix = True,
      onPress = False, onClick = False, onDoubleClick = False,
      onMouseOver = False, onMouseOut = False\<rparr>"

definition bitmap :: "nat \<Rightarrow> bool \<Rightarrow> dobj" where
  "bitmap n enabled = Leaf (bitmapProps n enabled) (BitmapLeaf (Some True))"

definition containerProps :: "bool \<Rightarrow> props" where
  "containerProps matrix =
     \<lparr>ident = 0, visible = True, alpha = 1, scaleX = 1, scaleY = 1, mouseEnabled = True,
      compositeOperation = None, cached = False, hasMatrix = matrix,
      onPress = False, onClick = False, onDoubleClick = False,
      onMouseOver = False, onMouseOut = False\<rparr>"

definition twoBitmaps :: "dobj list" where
  "twoBitmaps = [bitmap 1 True, bitmap 2 False]"

definition blank :: canvas where
  "blank = \<lparr>canvasWidth = 100, canvasHeight = 100, transform = Coefficients 1 0 0 1 0 0,
            globalCompositeOperation = ''source-over'', pixelCalls = []\<rparr>"

text \<open>The assignment \<^verbatim>\<open>obj.mouseEnabled = b\<close>.\<close>

fun withMouseEnabled :: "bool \<Rightarrow> dobj \<Rightarrow> dobj" where
  "withMouseEnabled b (Leaf p k) = Leaf (p\<lparr>mouseEnabled := b\<rparr>) k"
| "withMouseEnabled b (Container p cs) = Container (p\<lparr>mouseEnabled := b\<rparr>) cs"

text \<open>Every object covers the point and its pixel can be read.\<close>

definition hitAll :: "nat \<Rightarrow> bool option" where
  "hitAll n = Some True"

section \<open>DisplayObject: the cache\<close>















section \<open>Properties of the child management methods\<close>

lemma indexOf_notin: "x \<notin> set xs \<Longrightarrow> indexOf xs x = - 1"
  by (induction xs) (auto simp: Let_def)

lemma indexOf_in:
  "x \<in> set xs \<Longrightarrow> 0 \<le> indexOf xs x \<and> indexOf xs x < int (length xs)"
  by (induction xs) (auto simp: Let_def)

lemma indexOf_nth: "x \<in> set xs \<Longrightarrow> xs ! nat (indexOf xs x) = x"
proof (induction xs)
  case Nil then show ?case by simp
next
  case (Cons y ys)
  show ?case
  proof (cases "y = x")
    case True then show ?thesis by simp
  next
    case False
    with Cons.prems have "x \<in> set ys" by simp
    with Cons.IH indexOf_in[of x ys] False show ?thesis
      by (auto simp: Let_def nat_add_distrib)
  qed
qed

lemma splice1_indexOf: "x \<in> set xs \<Longrightarrow> splice1 (nat (indexOf xs x)) xs = remove1 x xs"
proof (induction xs)
  case Nil then show ?case by simp
next
  case (Cons y ys)
  show ?case
  proof (cases "y = x")
    case True then show ?thesis by (simp add: splice1_def)
  next
    case False
    with Cons.prems have "x \<in> set ys" by simp
    with Cons.IH indexOf_in[of x ys] False show ?thesis
      by (auto simp: Let_def nat_add_distrib splice1_def)
  qed
qed

lemma removeChild_single:
  "removeChild p [c] s =
     (if c \<in> set (children s p)
      then (True, s\<lparr>parent := (parent s)(c := None),
                     children := (children s)(p := remove1 c (children s p))\<rparr>)
      else (False, s))"
  using indexOf_in[of c "children s p"] indexOf_nth[of c "children s p"]
        splice1_indexOf[of c "children s p"] indexOf_notin[of c "children s p"]
  by (auto simp: removeChild_def removeChild1_def removeChildAt_def removeChildAt1_def Let_def)

lemma addChild1_eq:
  "addChild1 this c s =
     s\<lparr>parent := (parent s)(c \<mapsto> this),
       children := (detached c s)(this := detached c s this @ [c])\<rparr>"
  by (cases "parent s c")
     (auto simp: addChild1_def detached_def removeChild_single Let_def remove1_idem)

lemma detached_notin:
  "single_owner s \<Longrightarrow> c \<notin> set (detached c s g)"
  by (auto simp: single_owner_def detached_def split: option.splits)

lemma detached_subset: "set (detached c s g) \<subseteq> set (children s g)"
proof (cases "parent s c")
  case None then show ?thesis by (simp add: detached_def)
next
  case (Some p)
  then show ?thesis using set_remove1_subset[of c "children s p"]
    by (simp add: detached_def)
qed

lemma detached_distinct: "single_owner s \<Longrightarrow> distinct (detached c s g)"
  by (auto simp: single_owner_def detached_def split: option.splits)

lemma addChild1_single_owner:
  assumes "single_owner s"
  shows "single_owner (addChild1 this c s)"
proof -
  have a: "\<And>g x. x \<in> set (detached c s g) \<Longrightarrow> x \<noteq> c \<and> parent s x = Some g"
    using detached_notin[OF assms] detached_subset assms
    by (fastforce simp: single_owner_def)
  show ?thesis
    unfolding addChild1_eq single_owner_def
    using a detached_distinct[OF assms] detached_notin[OF assms]
    by auto
qed

lemma fold_addChild1_single_owner:
  "single_owner s \<Longrightarrow> single_owner (fold (addChild1 this) cs s)"
  by (induction cs arbitrary: s) (auto simp: addChild1_single_owner)

lemma addChild_single_owner:
  "single_owner s \<Longrightarrow> addChild this args s = Inr (r, s') \<Longrightarrow> single_owner s'"
  by (auto simp: addChild_def fold_addChild1_single_owner addChild1_single_owner
           split: if_splits list.splits)

text \<open>
  Adding a child to the Container that already holds it moves the child to the end of
  the array; the length of the array does not change.
\<close>

lemma addChild_same_container:
  assumes "c \<in> set (children s B)" "parent s c = Some B"
  shows "children (addChild1 B c s) B = remove1 c (children s B) @ [c] \<and>
         length (children (addChild1 B c s) B) = length (children s B) \<and>
         parent (addChild1 B c s) c = Some B"
proof -
  have "length (remove1 c (children s B)) + 1 = length (children s B)"
    using assms(1) by (simp add: length_remove1) (cases "children s B"; simp)
  then show ?thesis using assms by (simp add: addChild1_eq detached_def)
qed

lemma nths_cong_below:
  "(\<And>j. j < length xs \<Longrightarrow> j \<in> A \<longleftrightarrow> j \<in> B) \<Longrightarrow> nths xs A = nths xs B"
  unfolding nths_def
  by (rule arg_cong[where f="map fst"], rule filter_cong) (auto simp: set_zip)

lemma nths_all: "(\<And>j. j < length xs \<Longrightarrow> j \<in> A) \<Longrightarrow> nths xs A = xs"
  using nths_cong_below[of xs A "{..<length xs}"] by (simp add: nths_upt_eq_take)

lemma nths_splice1:
  assumes "i < length xs" and "\<And>j. j \<in> R \<Longrightarrow> j < i"
  shows "nths (splice1 i xs) {j. j \<notin> R} = nths xs {j. j \<notin> R \<and> j \<noteq> i}"
proof -
  have len: "length (take i xs) = i" using assms(1) by simp
  have xs: "xs = take i xs @ (xs ! i # drop (Suc i) xs)"
    using assms(1) by (simp add: id_take_nth_drop[symmetric])
  have l: "nths (splice1 i xs) {j. j \<notin> R}
        = nths (take i xs) {j. j \<notin> R} @ nths (drop (Suc i) xs) {j. j + i \<notin> R}"
    unfolding splice1_def using assms(1) by (simp add: nths_append min_absorb2)
  have r: "nths xs {j. j \<notin> R \<and> j \<noteq> i}
        = nths (take i xs) {j. j \<notin> R \<and> j \<noteq> i}
          @ nths (drop (Suc i) xs) {j. Suc j + i \<notin> R \<and> Suc j + i \<noteq> i}"
    by (subst xs) (use assms(1) in \<open>simp add: nths_append nths_Cons min_absorb2\<close>)
  have t1: "nths (drop (Suc i) xs) {j. j + i \<notin> R} = drop (Suc i) xs"
    using assms(2) by (intro nths_all) fastforce
  have t2: "nths (drop (Suc i) xs) {j. Suc j + i \<notin> R \<and> Suc j + i \<noteq> i} = drop (Suc i) xs"
    using assms(2) by (intro nths_all) fastforce
  have h: "nths (take i xs) {j. j \<notin> R} = nths (take i xs) {j. j \<notin> R \<and> j \<noteq> i}"
    by (rule nths_cong_below) (use len in auto)
  show ?thesis by (simp only: l r t1 t2 h)
qed

lemma nat_image_iff: "\<forall>x\<in>S. 0 \<le> x \<Longrightarrow> j \<in> nat ` S \<longleftrightarrow> int j \<in> S"
proof
  assume a: "\<forall>x\<in>S. 0 \<le> x" and "j \<in> nat ` S"
  then obtain k where "k \<in> S" "j = nat k" by auto
  with a show "int j \<in> S" by simp
next
  assume "int j \<in> S"
  then have "nat (int j) \<in> nat ` S" by (rule imageI)
  then show "j \<in> nat ` S" by simp
qed

lemma splice1_nth_below: "j < i \<Longrightarrow> i < length xs \<Longrightarrow> splice1 i xs ! j = xs ! j"
  by (simp add: splice1_def nth_append)

lemma length_splice1: "i < length xs \<Longrightarrow> length (splice1 i xs) = length xs - 1"
  by (auto simp: splice1_def)

lemma fold_removeChildAt1_desc:
  assumes "sorted (rev ds)" "distinct ds"
    and "\<forall>i\<in>set ds. 0 \<le> i \<and> i < int (length (children s g))"
  shows "fold (\<lambda>i (good, s'). if good then removeChildAt1 g i s' else (False, s')) ds (True, s)
         = (True, removed_scene g (set ds) s)"
  using assms
proof (induction ds arbitrary: s)
  case Nil
  show ?case by (simp add: removed_scene_def nths_all)
next
  case (Cons i rest)
  let ?cs = "children s g"
  let ?s1 = "s\<lparr>parent := (parent s)(?cs ! nat i := None),
                children := (children s)(g := splice1 (nat i) ?cs)\<rparr>"
  from Cons.prems have i: "0 \<le> i" "i < int (length ?cs)" by auto
  from Cons.prems have below: "\<forall>j\<in>set rest. j < i"
    by (auto simp: sorted_append order_less_le)
  from Cons.prems have rest0: "\<forall>j\<in>set rest. 0 \<le> j" by auto
  have step: "removeChildAt1 g i s = (True, ?s1)"
    using i by (simp add: removeChildAt1_def Let_def)
  have pre: "sorted (rev rest)" "distinct rest"
    "\<forall>j\<in>set rest. 0 \<le> j \<and> j < int (length (children ?s1 g))"
    using Cons.prems below i by (auto simp: sorted_append length_splice1)
  have nthsame: "\<And>j. j \<in> set rest \<Longrightarrow> splice1 (nat i) ?cs ! nat j = ?cs ! nat j"
  proof -
    fix j assume j: "j \<in> set rest"
    with below rest0 have "0 \<le> j" "j < i" by auto
    then have "nat j < nat i" by simp
    moreover have "nat i < length ?cs" using i by simp
    ultimately show "splice1 (nat i) ?cs ! nat j = ?cs ! nat j"
      by (rule splice1_nth_below)
  qed
  have img: "(\<lambda>j. splice1 (nat i) ?cs ! nat j) ` set rest = (\<lambda>j. ?cs ! nat j) ` set rest"
    using nthsame by (intro image_cong) auto
  have "nths (splice1 (nat i) ?cs) {j. j \<notin> nat ` set rest}
        = nths ?cs {j. j \<notin> nat ` set rest \<and> j \<noteq> nat i}"
  proof (rule nths_splice1)
    show "nat i < length ?cs" using i by simp
  next
    fix j assume "j \<in> nat ` set rest"
    then obtain k where "k \<in> set rest" "j = nat k" by auto
    with below rest0 have "0 \<le> k" "k < i" by auto
    then show "j < nat i" using \<open>j = nat k\<close> by simp
  qed
  moreover have "{j. j \<notin> nat ` set rest} = {j. int j \<notin> set rest}"
    using rest0 by (simp add: nat_image_iff)
  moreover have "{j. j \<notin> nat ` set rest \<and> j \<noteq> nat i} = {j. int j \<notin> set (i # rest)}"
    using rest0 i by (auto simp: nat_image_iff)
  ultimately have nths_eq: "nths (splice1 (nat i) ?cs) {j. int j \<notin> set rest}
        = nths ?cs {j. int j \<notin> set (i # rest)}" by simp
  have "removed_scene g (set rest) ?s1 = removed_scene g (set (i # rest)) s"
    unfolding removed_scene_def using nths_eq img
    by (auto simp: fun_eq_iff)
  with Cons.IH[OF pre] step show ?case by simp
qed

lemma removeChildAt_removed:
  assumes "ixs \<noteq> []" "distinct ixs"
    and "\<forall>i\<in>set ixs. 0 \<le> i \<and> i < int (length (children s g))"
  shows "removeChildAt g ixs s = (True, removed_scene g (set ixs) s)"
proof (cases "length ixs > 1")
  case True
  have "fold (\<lambda>i (good, s'). if good then removeChildAt1 g i s' else (False, s'))
          (rev (sort ixs)) (True, s) = (True, removed_scene g (set (rev (sort ixs))) s)"
    using assms by (intro fold_removeChildAt1_desc) auto
  with True show ?thesis by (simp add: removeChildAt_def)
next
  case False
  with assms(1) obtain i where ixs: "ixs = [i]" by (cases ixs) auto
  have "fold (\<lambda>i (good, s'). if good then removeChildAt1 g i s' else (False, s'))
          [i] (True, s) = (True, removed_scene g (set [i]) s)"
    using assms unfolding ixs by (intro fold_removeChildAt1_desc) auto
  then show ?thesis by (simp add: removeChildAt_def ixs)
qed

text \<open>
  Claim C1. When \<^verbatim>\<open>c\<close> is in the child array of a Container \<^verbatim>\<open>A\<close> and
  its parent field names \<^verbatim>\<open>A\<close>, the call \<^verbatim>\<open>B.addChild(c)\<close> on another
  Container \<^verbatim>\<open>B\<close> returns \<^verbatim>\<open>c\<close>, takes \<^verbatim>\<open>c\<close> out of the array of
  \<^verbatim>\<open>A\<close> (one element fewer), appends it at the end of the array of \<^verbatim>\<open>B\<close>
  (one element more) and sets its parent to \<^verbatim>\<open>B\<close>. Single ownership is preserved
  by every \<^verbatim>\<open>addChild\<close> call that receives at least one child, whatever the
  Container and the children.
\<close>

theorem addChild_single_ownership:
  "(c \<in> set (children s A) \<and> parent s c = Some A \<and> A \<noteq> B \<longrightarrow>
      (\<exists>s'. addChild B [c] s = Inr (c, s') \<and>
            children s' A = remove1 c (children s A) \<and>
            length (children s' A) + 1 = length (children s A) \<and>
            children s' B = children s B @ [c] \<and>
            length (children s' B) = length (children s B) + 1 \<and>
            parent s' c = Some B \<and>
            (single_owner s \<longrightarrow> c \<notin> set (children s' A)))) \<and>
   (single_owner s \<longrightarrow>
      (\<forall>this args. args \<noteq> [] \<longrightarrow>
         (\<exists>r s'. addChild this args s = Inr (r, s') \<and> single_owner s')))"
proof (intro conjI impI allI)
  assume h: "c \<in> set (children s A) \<and> parent s c = Some A \<and> A \<noteq> B"
  let ?s' = "addChild1 B c s"
  have 1: "addChild B [c] s = Inr (c, ?s')" by (simp add: addChild_def)
  have 2: "children ?s' A = remove1 c (children s A)"
    using h by (simp add: addChild1_eq detached_def)
  have 3: "length (children ?s' A) + 1 = length (children s A)"
    using h by (simp add: 2 length_remove1) (cases "children s A"; simp)
  have 4: "children ?s' B = children s B @ [c]"
    using h by (simp add: addChild1_eq detached_def)
  have 5: "parent ?s' c = Some B" by (simp add: addChild1_eq)
  have 6: "single_owner s \<longrightarrow> c \<notin> set (children ?s' A)"
    using h by (auto simp: 2 single_owner_def)
  show "\<exists>s'. addChild B [c] s = Inr (c, s') \<and>
            children s' A = remove1 c (children s A) \<and>
            length (children s' A) + 1 = length (children s A) \<and>
            children s' B = children s B @ [c] \<and>
            length (children s' B) = length (children s B) + 1 \<and>
            parent s' c = Some B \<and>
            (single_owner s \<longrightarrow> c \<notin> set (children s' A))"
    using 1 2 3 4 5 6 by (intro exI[of _ ?s']) simp
next
  fix this :: oid and args :: "oid list"
  assume inv: "single_owner s" and ne: "args \<noteq> []"
  have "\<exists>r s'. addChild this args s = Inr (r, s')"
  proof (cases "length args > 1")
    case True then show ?thesis by (simp add: addChild_def)
  next
    case False
    with ne obtain c where "args = [c]" by (cases args) auto
    then show ?thesis by (simp add: addChild_def)
  qed
  then obtain r s' where r: "addChild this args s = Inr (r, s')" by blast
  with addChild_single_owner[OF inv r] show "\<exists>r s'. addChild this args s = Inr (r, s') \<and> single_owner s'"
    by blast
qed

lemma single_owner_scene0: "single_owner scene0"
  by (auto simp: single_owner_def scene0_def split: if_splits)

text \<open>The move of child 2 from Container 0 to Container 1 in \<^const>\<open>scene0\<close>.\<close>

theorem addChild_single_ownership_witness:
  "(2 \<in> set (children scene0 0) \<and> parent scene0 2 = Some 0 \<and> (0::oid) \<noteq> 1) \<and>
   single_owner scene0 \<and>
   (\<exists>s'. addChild 1 [2] scene0 = Inr (2, s') \<and> children s' 0 = [3] \<and>
         children s' 1 = [2] \<and> parent s' 2 = Some 1 \<and> single_owner s')"
proof -
  have h: "2 \<in> set (children scene0 0) \<and> parent scene0 2 = Some 0 \<and> (0::oid) \<noteq> 1"
    by (simp add: scene0_def)
  from addChild_single_ownership[of 2 scene0 0 1] h single_owner_scene0
  obtain s' where s': "addChild 1 [2] scene0 = Inr (2, s')"
      "children s' 0 = remove1 2 (children scene0 0)"
      "children s' 1 = children scene0 1 @ [2]" "parent s' 2 = Some 1"
    by blast
  from addChild_single_ownership[of 2 scene0 0 1] single_owner_scene0
  obtain r t where "addChild 1 [2] scene0 = Inr (r, t)" "single_owner t"
    by (metis list.distinct(1))
  with s' have "single_owner s'" by simp
  with s' h single_owner_scene0 show ?thesis
    by (auto simp: scene0_def)
qed

text \<open>
  Claim C8. \<^verbatim>\<open>removeChildAt\<close> called with a single index that is negative, or
  at least the number of children, returns \<^verbatim>\<open>false\<close> and leaves the display
  list as it was; nothing is raised.
\<close>

theorem removeChildAt_out_of_range:
  "index < 0 \<or> index \<ge> int (length (children s this)) \<Longrightarrow>
     removeChildAt this [index] s = (False, s)"
  by (auto simp: removeChildAt_def removeChildAt1_def)

text \<open>Index 3 and index -1 on the two children of Container 0 in \<^const>\<open>scene0\<close>.\<close>

theorem removeChildAt_out_of_range_witness:
  "((3::int) < 0 \<or> 3 \<ge> int (length (children scene0 0))) \<and>
   removeChildAt 0 [3] scene0 = (False, scene0) \<and>
   ((- 1::int) < 0 \<or> - 1 \<ge> int (length (children scene0 0))) \<and>
   removeChildAt 0 [- 1] scene0 = (False, scene0)"
  using removeChildAt_out_of_range[of 3 scene0 0] removeChildAt_out_of_range[of "- 1" scene0 0]
  by (simp add: scene0_def)

text \<open>
  Claim C5. \<^verbatim>\<open>removeChildAt\<close> called with distinct indices that are all in
  range, in any argument order, returns \<^verbatim>\<open>true\<close>; the child array keeps, in
  their order, exactly the children whose original position is not among the indices;
  every child that stood at one of the indices has its parent set to \<^verbatim>\<open>null\<close>;
  the parent of every other object and the arrays of the other Containers are unchanged.
\<close>

theorem removeChildAt_multiple:
  assumes "ixs \<noteq> []" "distinct ixs"
    and "\<forall>i\<in>set ixs. 0 \<le> i \<and> i < int (length (children s g))"
  shows "\<exists>s'. removeChildAt g ixs s = (True, s') \<and>
           children s' g = nths (children s g) {j. int j \<notin> set ixs} \<and>
           (\<forall>i\<in>set ixs. parent s' (children s g ! nat i) = None) \<and>
           (\<forall>n. n \<notin> (\<lambda>i. children s g ! nat i) ` set ixs \<longrightarrow> parent s' n = parent s n) \<and>
           (\<forall>h. h \<noteq> g \<longrightarrow> children s' h = children s h)"
  using removeChildAt_removed[OF assms]
  by (auto simp: removed_scene_def)

text \<open>
  \<^verbatim>\<open>removeChildAt(2, 0)\<close> and \<^verbatim>\<open>removeChildAt(0, 2)\<close> on the three children
  10, 11, 12 of \<^const>\<open>scene3\<close> both remove the first and the third child.
\<close>

theorem removeChildAt_multiple_witness:
  "(\<exists>s'. removeChildAt 0 [2, 0] scene3 = (True, s') \<and> children s' 0 = [11] \<and>
         parent s' 10 = None \<and> parent s' 12 = None \<and> parent s' 11 = Some 0) \<and>
   (\<exists>s'. removeChildAt 0 [0, 2] scene3 = (True, s') \<and> children s' 0 = [11] \<and>
         parent s' 10 = None \<and> parent s' 12 = None \<and> parent s' 11 = Some 0)"
proof -
  have cs: "children scene3 0 = [10, 11, 12]" by (simp add: scene3_def)
  have keep: "nths [10, 11, 12::oid] {j. int j \<notin> {2, 0}} = [11]"
    by (simp add: nths_Cons)
  have a: "[2, 0::int] \<noteq> [] \<and> distinct [2, 0::int] \<and>
           (\<forall>i\<in>set [2, 0::int]. 0 \<le> i \<and> i < int (length (children scene3 0)))"
    by (simp add: cs)
  have b: "[0, 2::int] \<noteq> [] \<and> distinct [0, 2::int] \<and>
           (\<forall>i\<in>set [0, 2::int]. 0 \<le> i \<and> i < int (length (children scene3 0)))"
    by (simp add: cs)
  have p: "parent scene3 11 = Some 0" by (simp add: scene3_def)
  from removeChildAt_multiple[of "[2, 0]" scene3 0] a
  have 1: "\<exists>s'. removeChildAt 0 [2, 0] scene3 = (True, s') \<and> children s' 0 = [11] \<and>
         parent s' 10 = None \<and> parent s' 12 = None \<and> parent s' 11 = Some 0"
    using keep p by (auto simp: cs)
  from removeChildAt_multiple[of "[0, 2]" scene3 0] b
  have 2: "\<exists>s'. removeChildAt 0 [0, 2] scene3 = (True, s') \<and> children s' 0 = [11] \<and>
         parent s' 10 = None \<and> parent s' 12 = None \<and> parent s' 11 = Some 0"
    using keep p by (auto simp: cs insert_commute)
  from 1 2 show ?thesis by blast
qed

section \<open>Properties of the sprite sheet player\<close>

text \<open>
  Claim C6 as stated: on the four frame looping sheet, with the player on frame 3, one
  advance gives frame 0 and one callback invocation. It fails for the method of that
  name: one call of
  \<^verbatim>\<open>advance\<close> leaves the frame at 4 and the callback uncalled: the frame is not
  wrapped by \<^verbatim>\<open>advance\<close> itself.
\<close>

theorem advance_without_normalize_counterexample:
  "currentEndFrame seq4 = None \<and> totalFrames (spriteSheet seq4) = Some 4 \<and> loop (spriteSheet seq4) \<and>
   currentFrame seq4 = 3 \<and> callback seq4 \<and>
   currentFrame (advance seq4) = 4 \<and> callbackCalls (advance seq4) = callbackCalls seq4 \<and>
   \<not> (currentFrame (advance seq4) = 0 \<and> callbackCalls (advance seq4) = callbackCalls seq4 + 1)"
  by (simp add: seq4_def sheet4_def advance_def)

lemma ttlFrames_total: "totalFrames sh = Some n \<Longrightarrow> n \<noteq> 0 \<Longrightarrow> ttlFrames sh = n"
  by (simp add: ttlFrames_def Let_def)

text \<open>
  Claim C6, amended. In simple mode (no current end frame), a player on frame 3 of a
  looping sheet with \<^verbatim>\<open>totalFrames = 4\<close> and a callback registered is on frame
  0 with one more callback invocation once \<^verbatim>\<open>advance\<close> has been followed by
  \<^verbatim>\<open>_normalizeCurrentFrame\<close>, and likewise after one \<^verbatim>\<open>_tick\<close> that is
  not paused and whose cadence is due. In general, when normalization finds the frame at
  or beyond the frame count, the frame becomes 0 on a looping sheet, and otherwise the
  last frame with \<^verbatim>\<open>paused\<close> set; the callback, when one is registered, is
  invoked once in both branches.
\<close>

theorem simple_mode_normalization:
  assumes "currentEndFrame s = None"
  shows "(totalFrames (spriteSheet s) = Some 4 \<and> loop (spriteSheet s) \<and> currentFrame s = 3 \<and> callback s \<longrightarrow>
            normalizeCurrentFrame (advance s) =
              Inr (s\<lparr>currentFrame := 0, callbackCalls := callbackCalls s + 1\<rparr>) \<and>
            (\<not> paused s \<and>
             js_rem (advanceCount s + 1 + advanceOffset s) (advanceFrequency s) = Some 0 \<longrightarrow>
               tick s = Inr (s\<lparr>advanceCount := advanceCount s + 1, currentFrame := 0,
                               callbackCalls := callbackCalls s + 1\<rparr>))) \<and>
         (currentFrame s \<ge> ttlFrames (spriteSheet s) \<longrightarrow>
            (\<exists>r. normalizeCurrentFrame s = Inr r \<and>
                 r = invokeCallback (if loop (spriteSheet s) then s\<lparr>currentFrame := 0\<rparr>
                       else s\<lparr>currentFrame := ttlFrames (spriteSheet s) - 1, paused := True\<rparr>) \<and>
                 currentFrame r = (if loop (spriteSheet s) then 0 else ttlFrames (spriteSheet s) - 1) \<and>
                 paused r = (if loop (spriteSheet s) then paused s else True) \<and>
                 callbackCalls r = callbackCalls s + (if callback s then 1 else 0)))"
proof (intro conjI impI)
  assume h: "totalFrames (spriteSheet s) = Some 4 \<and> loop (spriteSheet s) \<and> currentFrame s = 3 \<and> callback s"
  then have t: "ttlFrames (spriteSheet s) = 4" by (simp add: ttlFrames_total)
  show "normalizeCurrentFrame (advance s) =
          Inr (s\<lparr>currentFrame := 0, callbackCalls := callbackCalls s + 1\<rparr>)"
    using assms h t by (simp add: normalizeCurrentFrame_def advance_def invokeCallback_def)
  assume c: "\<not> paused s \<and>
     js_rem (advanceCount s + 1 + advanceOffset s) (advanceFrequency s) = Some 0"
  show "tick s = Inr (s\<lparr>advanceCount := advanceCount s + 1, currentFrame := 0,
                        callbackCalls := callbackCalls s + 1\<rparr>)"
    using assms h t c
    by (simp add: tick_def Let_def normalizeCurrentFrame_def invokeCallback_def)
next
  assume "currentFrame s \<ge> ttlFrames (spriteSheet s)"
  then show "\<exists>r. normalizeCurrentFrame s = Inr r \<and>
                 r = invokeCallback (if loop (spriteSheet s) then s\<lparr>currentFrame := 0\<rparr>
                       else s\<lparr>currentFrame := ttlFrames (spriteSheet s) - 1, paused := True\<rparr>) \<and>
                 currentFrame r = (if loop (spriteSheet s) then 0 else ttlFrames (spriteSheet s) - 1) \<and>
                 paused r = (if loop (spriteSheet s) then paused s else True) \<and>
                 callbackCalls r = callbackCalls s + (if callback s then 1 else 0)"
    using assms by (simp add: normalizeCurrentFrame_def invokeCallback_def)
qed

text \<open>
  The wrapping player \<^const>\<open>seq4\<close>, and the same player on frame 7 of a sheet that
  does not loop, which is clamped to frame 3 and paused.
\<close>

theorem simple_mode_normalization_witness:
  "currentEndFrame seq4 = None \<and>
   (totalFrames (spriteSheet seq4) = Some 4 \<and> loop (spriteSheet seq4) \<and> currentFrame seq4 = 3 \<and> callback seq4) \<and>
   normalizeCurrentFrame (advance seq4) = Inr (seq4\<lparr>currentFrame := 0, callbackCalls := 1\<rparr>) \<and>
   (\<not> paused seq4 \<and>
    js_rem (advanceCount seq4 + 1 + advanceOffset seq4) (advanceFrequency seq4) = Some 0) \<and>
   tick seq4 = Inr (seq4\<lparr>advanceCount := 1, currentFrame := 0, callbackCalls := 1\<rparr>) \<and>
   currentFrame (seq4\<lparr>spriteSheet := sheet4\<lparr>loop := False\<rparr>, currentFrame := 7\<rparr>)
     \<ge> ttlFrames (sheet4\<lparr>loop := False\<rparr>) \<and>
   (\<exists>r. normalizeCurrentFrame (seq4\<lparr>spriteSheet := sheet4\<lparr>loop := False\<rparr>, currentFrame := 7\<rparr>) = Inr r \<and>
        currentFrame r = 3 \<and> paused r \<and> callbackCalls r = 1)"
proof -
  let ?c = "seq4\<lparr>spriteSheet := sheet4\<lparr>loop := False\<rparr>, currentFrame := 7\<rparr>"
  have a: "currentEndFrame seq4 = None" "currentEndFrame ?c = None" by (simp_all add: seq4_def)
  have b: "totalFrames (spriteSheet seq4) = Some 4 \<and> loop (spriteSheet seq4) \<and> currentFrame seq4 = 3 \<and> callback seq4"
    by (simp add: seq4_def sheet4_def)
  have c: "\<not> paused seq4 \<and>
    js_rem (advanceCount seq4 + 1 + advanceOffset seq4) (advanceFrequency seq4) = Some 0"
    by (simp add: seq4_def js_rem_def)
  have t: "ttlFrames (sheet4\<lparr>loop := False\<rparr>) = 4" by (simp add: ttlFrames_def sheet4_def)
  have d: "currentFrame ?c \<ge> ttlFrames (spriteSheet ?c)" by (simp add: t)
  from simple_mode_normalization[OF a(1)] b c
  have 1: "normalizeCurrentFrame (advance seq4) = Inr (seq4\<lparr>currentFrame := 0, callbackCalls := 1\<rparr>)"
    and 2: "tick seq4 = Inr (seq4\<lparr>advanceCount := 1, currentFrame := 0, callbackCalls := 1\<rparr>)"
    by (simp_all add: seq4_def)
  from simple_mode_normalization[OF a(2)] d
  have 3: "\<exists>r. normalizeCurrentFrame ?c = Inr r \<and> currentFrame r = 3 \<and> paused r \<and> callbackCalls r = 1"
    by (simp add: t) (simp add: seq4_def sheet4_def)
  from a b c d t 1 2 3 show ?thesis by simp
qed

text \<open>
  Claim C9. \<^verbatim>\<open>advance\<close> adds one to \<^verbatim>\<open>currentFrame\<close> and writes no other
  field, whatever the paused flag and the cadence fields hold: it neither normalizes nor
  calls the callback. The player \<^const>\<open>seq4\<close> is inside the frame range before the
  call and on frame 4 of 4 after it; \<^verbatim>\<open>getCurrentFrameRect\<close> or the next
  \<^verbatim>\<open>_tick\<close> then bring it to frame 0.
\<close>

theorem advance_only_increments:
  "advance s = s\<lparr>currentFrame := currentFrame s + 1\<rparr> \<and>
   currentFrame (advance s) = currentFrame s + 1 \<and>
   paused (advance s) = paused s \<and>
   advanceCount (advance s) = advanceCount s \<and>
   callbackCalls (advance s) = callbackCalls s \<and>
   currentFrame (advance (s\<lparr>paused := True\<rparr>)) = currentFrame s + 1 \<and>
   (0 \<le> currentFrame seq4 \<and> currentFrame seq4 < ttlFrames (spriteSheet seq4) \<and>
    currentFrame (advance seq4) = ttlFrames (spriteSheet seq4) \<and>
    (\<exists>rect r. getCurrentFrameRect (advance seq4) = Inr (rect, r) \<and> currentFrame r = 0) \<and>
    (\<exists>r. tick (advance seq4) = Inr r \<and> currentFrame r = 0))"
  by (simp add: advance_def)
     (simp add: seq4_def sheet4_def ttlFrames_def getCurrentFrameRect_def tick_def
        normalizeCurrentFrame_def invokeCallback_def js_rem_def js_div_int32_def toInt32_def Let_def)

section \<open>Properties of Matrix2D inversion\<close>








section \<open>Properties of the inherited properties\<close>

text \<open>
  Claim C7. \<^verbatim>\<open>appendProperties\<close> and \<^verbatim>\<open>prependProperties\<close> both multiply
  the opacity of the matrix by the argument. For the shadow and the composite operation,
  \<^verbatim>\<open>appendProperties\<close> takes the incoming value when it is not \<^verbatim>\<open>null\<close>
  and keeps the existing one otherwise; \<^verbatim>\<open>prependProperties\<close> keeps the
  existing value unless it is \<^verbatim>\<open>null\<close>, and then takes the incoming one.
  For the composite operation this is stated for identifiers, that is, for strings
  that are not empty.
\<close>

theorem properties_precedence:
  "mtx_alpha (appendProperties opacity sh cop this) = mtx_alpha this * opacity \<and>
   mtx_shadow (appendProperties opacity sh cop this)
     = (case sh of Some x \<Rightarrow> Some x | None \<Rightarrow> mtx_shadow this) \<and>
   (composite_mode cop \<longrightarrow>
      mtx_compositeOperation (appendProperties opacity sh cop this)
        = (case cop of Some x \<Rightarrow> Some x | None \<Rightarrow> mtx_compositeOperation this)) \<and>
   mtx_alpha (prependProperties opacity sh cop this) = mtx_alpha this * opacity \<and>
   mtx_shadow (prependProperties opacity sh cop this)
     = (case mtx_shadow this of Some x \<Rightarrow> Some x | None \<Rightarrow> sh) \<and>
   (composite_mode (mtx_compositeOperation this) \<longrightarrow>
      mtx_compositeOperation (prependProperties opacity sh cop this)
        = (case mtx_compositeOperation this of Some x \<Rightarrow> Some x | None \<Rightarrow> cop))"
  by (auto simp: appendProperties_def prependProperties_def composite_mode_def
        truthy_string_def truthy_object_def split: option.splits)

text \<open>
  The empty string is the one string that \<^verbatim>\<open>||\<close> passes over like
  \<^verbatim>\<open>null\<close>: as an incoming value it does not replace the existing composite
  operation, and as an existing value it gives way to the incoming one.
\<close>

lemma empty_string_is_falsy:
  "mtx_compositeOperation (appendProperties opacity sh (Some []) this)
     = mtx_compositeOperation this \<and>
   mtx_compositeOperation
     (prependProperties opacity sh cop (this\<lparr>mtx_compositeOperation := Some []\<rparr>)) = cop"
  by (simp add: appendProperties_def prependProperties_def truthy_string_def)

text \<open>The four combinations on \<^const>\<open>mtx_styled\<close> and \<^const>\<open>mtx_plain\<close>.\<close>

theorem properties_precedence_witness:
  "composite_mode (Some ''lighter'') \<and> composite_mode None \<and>
   composite_mode (mtx_compositeOperation mtx_styled) \<and>
   composite_mode (mtx_compositeOperation mtx_plain) \<and>
   mtx_alpha (appendProperties (1 / 2) None (Some ''lighter'') mtx_styled) = 1 / 4 \<and>
   mtx_shadow (appendProperties (1 / 2) None (Some ''lighter'') mtx_styled)
     = Some (Shadow ''#000'' 1 1 2) \<and>
   mtx_compositeOperation (appendProperties (1 / 2) None (Some ''lighter'') mtx_styled)
     = Some ''lighter'' \<and>
   mtx_compositeOperation (appendProperties (1 / 2) None None mtx_styled) = Some ''multiply'' \<and>
   mtx_alpha (prependProperties (1 / 2) None (Some ''lighter'') mtx_styled) = 1 / 4 \<and>
   mtx_compositeOperation (prependProperties (1 / 2) None (Some ''lighter'') mtx_styled)
     = Some ''multiply'' \<and>
   mtx_compositeOperation (prependProperties (1 / 2) None (Some ''lighter'') mtx_plain)
     = Some ''lighter'' \<and>
   mtx_shadow (prependProperties (1 / 2) (Some (Shadow ''#fff'' 0 0 1)) None mtx_plain)
     = Some (Shadow ''#fff'' 0 0 1)"
proof -
  have c: "composite_mode (Some ''lighter'')" "composite_mode None"
          "composite_mode (mtx_compositeOperation mtx_styled)"
          "composite_mode (mtx_compositeOperation mtx_plain)"
    by (simp_all add: composite_mode_def mtx_styled_def mtx_plain_def)
  from properties_precedence[of "1 / 2" None "Some ''lighter''" mtx_styled]
       properties_precedence[of "1 / 2" None None mtx_styled]
       properties_precedence[of "1 / 2" None "Some ''lighter''" mtx_plain]
       properties_precedence[of "1 / 2" "Some (Shadow ''#fff'' 0 0 1)" None mtx_plain]
       c
  show ?thesis by (simp add: mtx_styled_def mtx_plain_def)
qed

section \<open>Properties of the cache\<close>












section \<open>Properties of the replay list\<close>

lemma hd_updateInstructions:
  "oldInstructions g = [] \<or> hd (oldInstructions g) = BeginPath \<Longrightarrow>
   hd (instructions (updateInstructions g)) = BeginPath"
  by (cases "oldInstructions g") (auto simp: updateInstructions_def)

lemma instructions_updateInstructions_nonempty: "instructions (updateInstructions g) \<noteq> []"
  by (simp add: updateInstructions_def)

lemma well_formed_new: "well_formed newGraphics"
  by (simp add: well_formed_def newGraphics_def optl_def)

lemma well_formed_clear: "well_formed (clear g)"
  by (simp add: well_formed_def clear_def optl_def)

lemma updateInstructions_fields:
  "oldInstructions (updateInstructions g) = oldInstructions g"
  "activeInstructions (updateInstructions g) = activeInstructions g"
  "fillInstructions (updateInstructions g) = fillInstructions g"
  "strokeInstructions (updateInstructions g) = strokeInstructions g"
  "strokeStyleInstructions (updateInstructions g) = strokeStyleInstructions g"
  "active (updateInstructions g) = active g"
  "dirty (updateInstructions g) = dirty g"
  by (simp_all add: updateInstructions_def)

lemma well_formed_updateInstructions:
  "well_formed g \<Longrightarrow> well_formed (updateInstructions g)"
  using hd_updateInstructions[of g]
  by (simp add: well_formed_def updateInstructions_fields)

lemma well_formed_draw: "well_formed g \<Longrightarrow> well_formed (fst (draw g))"
  by (simp add: draw_def Let_def well_formed_updateInstructions)

lemma well_formed_newPath: "well_formed g \<Longrightarrow> well_formed (newPath g)"
proof -
  assume w: "well_formed g"
  let ?g1 = "if dirty g then updateInstructions g else g"
  have w1: "well_formed ?g1" using w by (simp add: well_formed_updateInstructions)
  then show ?thesis
    unfolding newPath_def Let_def
    by (simp add: well_formed_def)
qed

lemma well_formed_endSubpath: "well_formed g \<Longrightarrow> well_formed (endSubpath g)"
  by (simp add: endSubpath_def well_formed_newPath)

lemma well_formed_pushActive:
  "well_formed g \<Longrightarrow> list_all is_path cs \<Longrightarrow> well_formed (pushActive cs g)"
  by (simp add: well_formed_def pushActive_def)

lemma is_path_polyStarSides: "list_all is_path (polyStarSides n x y r ps a ang)"
  by (induction n arbitrary: ang) simp_all

lemma well_formed_fill:
  "well_formed g \<Longrightarrow> list_all is_fill_style (optl f) \<Longrightarrow> well_formed (g\<lparr>fillInstructions := f\<rparr>)"
  by (simp add: well_formed_def)

lemma well_formed_stroke:
  "well_formed g \<Longrightarrow> list_all is_stroke_style (optl f) \<Longrightarrow> well_formed (g\<lparr>strokeInstructions := f\<rparr>)"
  by (simp add: well_formed_def)

lemma well_formed_strokeStyle:
  "well_formed g \<Longrightarrow> list_all is_stroke_appearance (optl f) \<Longrightarrow>
     well_formed (g\<lparr>strokeStyleInstructions := f\<rparr>)"
  by (simp add: well_formed_def)

lemma well_formed_beginFill: "well_formed g \<Longrightarrow> well_formed (beginFill color g)"
  unfolding beginFill_def
  by (rule well_formed_fill) (auto simp: well_formed_endSubpath optl_def split: option.splits)

lemma well_formed_beginStroke: "well_formed g \<Longrightarrow> well_formed (beginStroke color g)"
  unfolding beginStroke_def
  by (rule well_formed_stroke) (auto simp: well_formed_endSubpath optl_def split: option.splits)

lemma well_formed_call: "well_formed g \<Longrightarrow> well_formed (call c g)"
proof (cases c)
  case (CallMoveTo x y)
  then show "well_formed g \<Longrightarrow> ?thesis" by (simp add: moveTo_def well_formed_def)
next
  case CallClosePath
  then show "well_formed g \<Longrightarrow> ?thesis" by (simp add: closePath_def well_formed_def)
next
  case CallClear
  then show ?thesis by (simp add: well_formed_clear)
next
  case (CallBeginFill color)
  then show "well_formed g \<Longrightarrow> ?thesis" by (simp add: well_formed_beginFill)
next
  case CallEndFill
  then show "well_formed g \<Longrightarrow> ?thesis" by (simp add: endFill_def well_formed_beginFill)
next
  case (CallBeginStroke color)
  then show "well_formed g \<Longrightarrow> ?thesis" by (simp add: well_formed_beginStroke)
next
  case CallEndStroke
  then show "well_formed g \<Longrightarrow> ?thesis" by (simp add: endStroke_def well_formed_beginStroke)
next
  case CallDraw
  then show "well_formed g \<Longrightarrow> ?thesis" by (simp add: well_formed_draw)
next
  case (CallSetStrokeStyle t caps joints ml)
  then show "well_formed g \<Longrightarrow> ?thesis"
    by (simp add: setStrokeStyle_def)
       (rule well_formed_strokeStyle, simp_all add: well_formed_endSubpath optl_def)
next
  case (CallDrawPolyStar x y r sides ps ang)
  then show "well_formed g \<Longrightarrow> ?thesis"
    by (simp add: drawPolyStar_def Let_def well_formed_pushActive is_path_polyStarSides)
qed (simp_all add: lineTo_def arcTo_def arc_def quadraticCurveTo_def bezierCurveTo_def rect_def
       drawRoundRect_def drawRoundRectComplex_def drawCircle_def drawEllipse_def Let_def
       well_formed_pushActive
       beginLinearGradientFill_def beginRadialGradientFill_def beginBitmapFill_def
       beginLinearGradientStroke_def beginRadialGradientStroke_def beginBitmapStroke_def
       well_formed_fill well_formed_stroke well_formed_endSubpath optl_def)

lemma well_formed_fold: "well_formed g \<Longrightarrow> well_formed (fold call cs g)"
  by (induction cs arbitrary: g) (simp_all add: well_formed_call)

lemma well_formed_recorded: "well_formed (recorded cs)"
  by (simp add: recorded_def well_formed_fold well_formed_new)

text \<open>
  Claim C4. After any sequence of calls of the public methods on a new Graphics object,
  the list that \<^verbatim>\<open>_updateInstructions\<close> builds, which \<^verbatim>\<open>draw\<close>
  executes when the object is dirty, is: the instructions finalized for earlier
  subpaths, the begin command, the fill style instructions if a fill is set, the stroke
  style instructions if a stroke is set, followed then by the stroke appearance
  instructions if there are any, the recorded path instructions, the fill command
  exactly when a fill is set and the stroke command exactly when a stroke is set. Each
  group holds Commands of its kind only, and the first Command of the list is the begin
  command.
\<close>

theorem replay_order:
  "let g = recorded cs;
       F = optl (fillInstructions g);
       S = optl (strokeInstructions g);
       A = (if strokeInstructions g = None then [] else optl (strokeStyleInstructions g));
       P = activeInstructions g;
       r = instructions (updateInstructions g)
   in r = oldInstructions g @ [BeginPath] @ F @ S @ A @ P
            @ (if fillInstructions g \<noteq> None then [FillCmd] else [])
            @ (if strokeInstructions g \<noteq> None then [StrokeCmd] else []) \<and>
      list_all is_fill_style F \<and> list_all is_stroke_style S \<and>
      list_all is_stroke_appearance A \<and> list_all is_path P \<and>
      hd r = BeginPath \<and>
      (dirty g \<longrightarrow> snd (draw g) = r)"
proof -
  have w: "well_formed (recorded cs)" by (rule well_formed_recorded)
  have eq: "instructions (updateInstructions (recorded cs)) =
      oldInstructions (recorded cs) @ [BeginPath] @ optl (fillInstructions (recorded cs))
      @ optl (strokeInstructions (recorded cs))
      @ (if strokeInstructions (recorded cs) = None then []
         else optl (strokeStyleInstructions (recorded cs)))
      @ activeInstructions (recorded cs)
      @ (if fillInstructions (recorded cs) \<noteq> None then [FillCmd] else [])
      @ (if strokeInstructions (recorded cs) \<noteq> None then [StrokeCmd] else [])"
    by (simp add: updateInstructions_def optl_def)
  have hd: "hd (instructions (updateInstructions (recorded cs))) = BeginPath"
    using w by (intro hd_updateInstructions) (simp add: well_formed_def)
  have dr: "dirty (recorded cs) \<longrightarrow>
      snd (draw (recorded cs)) = instructions (updateInstructions (recorded cs))"
    by (simp add: draw_def Let_def)
  show ?thesis
    unfolding Let_def using w eq hd dr
    by (simp add: well_formed_def)
qed

lemma recorded_triangle:
  "recorded triangle_calls =
     \<lparr>instructions = [], oldInstructions = [],
      activeInstructions = [MoveTo 0 0, LineTo 10 0, LineTo 10 10, ClosePath],
      strokeStyleInstructions =
        Some [SetProp ''lineWidth'' (PNum 2), SetProp ''lineCap'' (PStr ''butt''),
              SetProp ''lineJoin'' (PStr ''miter''), SetProp ''miterLimit'' (PStr ''10'')],
      strokeInstructions = Some [SetProp ''strokeStyle'' (PStr ''#F00'')],
      fillInstructions = Some [SetProp ''fillStyle'' (PStr ''#00F'')],
      active = True, dirty = True\<rparr>"
  by (simp add: recorded_def triangle_calls_def newGraphics_def setStrokeStyle_def
        beginStroke_def beginFill_def moveTo_def lineTo_def closePath_def pushActive_def
        endSubpath_def mapped_def)

text \<open>The replay of \<^const>\<open>triangle_calls\<close>.\<close>

theorem replay_order_witness:
  "dirty (recorded triangle_calls) \<and>
   snd (draw (recorded triangle_calls)) =
     [BeginPath,
      SetProp ''fillStyle'' (PStr ''#00F''),
      SetProp ''strokeStyle'' (PStr ''#F00''),
      SetProp ''lineWidth'' (PNum 2), SetProp ''lineCap'' (PStr ''butt''),
      SetProp ''lineJoin'' (PStr ''miter''), SetProp ''miterLimit'' (PStr ''10''),
      MoveTo 0 0, LineTo 10 0, LineTo 10 10, ClosePath,
      FillCmd, StrokeCmd]"
proof -
  have d: "dirty (recorded triangle_calls)" by (simp add: recorded_triangle)
  from replay_order[of triangle_calls] d
  have "snd (draw (recorded triangle_calls)) =
      oldInstructions (recorded triangle_calls) @ [BeginPath]
      @ optl (fillInstructions (recorded triangle_calls))
      @ optl (strokeInstructions (recorded triangle_calls))
      @ (if strokeInstructions (recorded triangle_calls) = None then []
         else optl (strokeStyleInstructions (recorded triangle_calls)))
      @ activeInstructions (recorded triangle_calls)
      @ (if fillInstructions (recorded triangle_calls) \<noteq> None then [FillCmd] else [])
      @ (if strokeInstructions (recorded triangle_calls) \<noteq> None then [StrokeCmd] else [])"
    by (simp add: Let_def)
  then show ?thesis using d by (simp add: recorded_triangle optl_def)
qed

text \<open>
  The stroke appearance is replayed together with a stroke style only: after
  \<^verbatim>\<open>setStrokeStyle(5)\<close> and \<^verbatim>\<open>lineTo(10, 10)\<close> the replay is the begin
  command and the line.
\<close>

lemma stroke_appearance_without_stroke:
  "snd (draw (recorded [CallSetStrokeStyle (Some 5) None None None, CallLineTo 10 10]))
     = [BeginPath, LineTo 10 10]"
  by (simp add: recorded_def newGraphics_def setStrokeStyle_def lineTo_def pushActive_def
        endSubpath_def mapped_def draw_def updateInstructions_def optl_def Let_def)

section \<open>Properties of drawing and of the point queries\<close>

lemma hasHandler_0: "hasHandler 0 p = False"
  by (simp add: hasHandler_def)

lemma rec_reachable:
  "getObjectsUnderPointRec suppress hit p cs arr mouseEvents = Inr (r, arr') \<Longrightarrow>
     mouseEvents = 0 \<Longrightarrow> all_reachable arr \<Longrightarrow>
     all_reachable r \<and> all_reachable arr' \<and> (arr \<noteq> None \<longrightarrow> arr' \<noteq> None)"
  "childrenLoop suppress hit this handler cs arr mouseEvents = Inr (r, arr') \<Longrightarrow>
     mouseEvents = 0 \<Longrightarrow> \<not> handler \<Longrightarrow> all_reachable arr \<Longrightarrow>
     all_reachable r \<and> all_reachable arr' \<and> (arr \<noteq> None \<longrightarrow> arr' \<noteq> None)"
proof (induction suppress hit p cs arr mouseEvents and suppress hit this handler cs arr mouseEvents
       arbitrary: r arr' and r arr'
       rule: getObjectsUnderPointRec_childrenLoop.induct)
  case (1 suppress hit p cs arr mouseEvents)
  show ?case
  proof (cases "cached p")
    case False
    with "1.prems" have "childrenLoop suppress hit (Container p cs) (hasHandler mouseEvents p)
        cs arr mouseEvents = Inr (r, arr')" by simp
    from "1.IH"(2)[OF False this "1.prems"(2) _ "1.prems"(3)] "1.prems"(2)
    show ?thesis by (simp add: hasHandler_0)
  next
    case True
    note c = True
    show ?thesis
    proof (cases "hasMatrix p")
      case False
      with c "1.prems" show ?thesis by simp
    next
      case True
      note m = True
      show ?thesis
      proof (cases "drawAndTest suppress hit (Container p cs)")
        case (Inl err)
        with c m "1.prems" show ?thesis by simp
      next
        case (Inr h)
        show ?thesis
        proof (cases h)
          case False
          with c m Inr "1.prems" show ?thesis by (auto simp: all_reachable_def)
        next
          case True
          have nh: "\<not> hasHandler mouseEvents p" using "1.prems"(2) by (simp add: hasHandler_0)
          with c m Inr True "1.prems"
          have "childrenLoop suppress hit (Container p cs) (hasHandler mouseEvents p)
                  cs arr mouseEvents = Inr (r, arr')" by simp
          moreover have hm: "\<not> \<not> hasMatrix p" using m by simp
          moreover have ht: "h = True" using True by simp
          ultimately show ?thesis
            using "1.IH"(1)[OF c hm Inr ht nh _ "1.prems"(2) nh "1.prems"(3)] by simp
        qed
      qed
    qed
  qed
next
  case (2 suppress hit this handler arr mouseEvents)
  then show ?case by (auto simp: all_reachable_def)
next
  case (3 suppress hit this handler child upper arr mouseEvents)
  from "3.prems"(1) obtain r1 arr1
    where up: "childrenLoop suppress hit this handler upper arr mouseEvents = Inr (r1, arr1)"
    by (cases "childrenLoop suppress hit this handler upper arr mouseEvents") auto
  from "3.IH"(1)[OF up "3.prems"(2,3,4)]
  have ih1: "all_reachable r1" "all_reachable arr1" "arr \<noteq> None \<longrightarrow> arr1 \<noteq> None"
    by simp_all
  show ?case
  proof (cases r1)
    case (Some returned)
    then show ?thesis using up ih1 "3.prems"(1) by auto
  next
    case None
    note r1 = None
    show ?thesis
    proof (cases "\<not> isVisible child \<or> \<not> mouseEnabled (propsOf child)")
      case True
      then show ?thesis using up r1 ih1 "3.prems"(1) by (auto simp: all_reachable_def)
    next
      case False
      then have ok: "reachable child" by (simp add: reachable_def)
      show ?thesis
      proof (cases child)
        case (Leaf q k)
        then show ?thesis using up r1 ih1 ok False "3.prems"
          by (auto simp: all_reachable_def split: option.splits sum.splits bool.splits if_splits)
      next
        case (Container q ds)
        from "3.prems"(1) up r1 False Container "3.prems"(3)
        obtain r2 arr2
          where dn: "getObjectsUnderPointRec suppress hit q ds arr1 mouseEvents = Inr (r2, arr2)"
          by (cases "getObjectsUnderPointRec suppress hit q ds arr1 mouseEvents") auto
        from "3.IH"(3)[OF up refl r1 False Container "3.prems"(3) dn "3.prems"(2) ih1(2)]
        have ih2: "all_reachable r2" "all_reachable arr2" "arr1 \<noteq> None \<longrightarrow> arr2 \<noteq> None"
          by simp_all
        show ?thesis using up r1 False Container "3.prems" ih1 ih2 dn
          by (auto simp: all_reachable_def split: option.splits if_splits)
      qed
    qed
  qed
qed

text \<open>Drawing only adds pixel calls: what was on the canvas before is still listed.\<close>

lemma displayObjectDraw_extends:
  "\<exists>ys. pixelCalls (snd (displayObjectDraw ignoreCache p ctx)) = pixelCalls ctx @ ys"
  by (simp add: displayObjectDraw_def drawImage_def)

lemma leafDraw_extends:
  "\<exists>ys. pixelCalls (snd (leafDraw ignoreCache p k ctx)) = pixelCalls ctx @ ys"
proof (cases k)
  case PlainObject
  then show ?thesis by (simp add: displayObjectDraw_def drawImage_def)
next
  case (BitmapLeaf img)
  then show ?thesis
    by (auto simp: bitmapDraw_def displayObjectDraw_def drawImage_def split: option.splits)
next
  case (BitmapSequenceLeaf loaded s)
  then show ?thesis
    by (auto simp: bitmapSequenceDraw_def displayObjectDraw_def drawImage_def
          split: option.splits sum.splits prod.splits rectangle.splits)
next
  case (DOMElementLeaf element)
  then show ?thesis by (simp add: domElementDraw_def)
qed

lemma draw_extends:
  "\<exists>ys. pixelCalls (snd (drawObject ignoreCache mtx obj ctx)) = pixelCalls ctx @ ys"
  "\<exists>ys. pixelCalls (snd (drawChildren inherited cs ctx)) = pixelCalls ctx @ ys"
proof (induction ignoreCache mtx obj ctx and inherited cs ctx
       rule: drawObject_drawChildren.induct)
  case (1 ignoreCache mtx p k ctx)
  show ?case using leafDraw_extends by simp
next
  case (2 ignoreCache mtx p cs ctx)
  show ?case
  proof (cases "ignoreCache \<or> \<not> cached p")
    case False
    then show ?thesis by (simp add: displayObjectDraw_def drawImage_def)
  next
    case True
    then have d: "displayObjectDraw ignoreCache p ctx = (False, ctx)"
      by (simp add: displayObjectDraw_def)
    show ?thesis
    proof (cases mtx)
      case (Some inherited)
      from "2.IH"(2)[OF d[symmetric] refl Some] d Some show ?thesis by simp
    next
      case None
      show ?thesis
      proof (cases "hasMatrix p")
        case True
        from "2.IH"(1)[OF d[symmetric] refl None True] d None True show ?thesis by simp
      next
        case False
        with d None show ?thesis by simp
      qed
    qed
  qed
next
  case (3 inherited ctx)
  show ?case by simp
next
  case (4 inherited child rest ctx)
  show ?case
  proof (cases "isVisible child")
    case False
    with "4.IH"(1) show ?thesis by simp
  next
    case True
    note v = True
    show ?thesis
    proof (cases "hasMatrix (propsOf child)")
      case False
      with v show ?thesis by simp
    next
      case True
      note m = True
      define rule where "rule = (if truthy_string (compositeOperation (propsOf child))
                     then compositeOperation (propsOf child) else inherited)"
      define ctx1 where "ctx1 = (if isContainer child \<and> \<not> cached (propsOf child) then ctx
                     else ctx\<lparr>transform := ConcatenatedMatrix (ident (propsOf child)),
                              globalCompositeOperation :=
                                (case rule of
                                   Some r \<Rightarrow> (if r \<noteq> [] then r else ''source-over'')
                                 | None \<Rightarrow> ''source-over'')\<rparr>)"
      have p1: "pixelCalls ctx1 = pixelCalls ctx" by (simp add: ctx1_def)
      have nv: "\<not> \<not> isVisible child" "\<not> \<not> hasMatrix (propsOf child)" using v m by simp_all
      from "4.IH"(2)[OF nv rule_def ctx1_def]
      obtain ys where ys: "pixelCalls (snd (drawObject False (Some rule) child ctx1)) = pixelCalls ctx @ ys"
        using p1 by auto
      show ?thesis
      proof (cases "drawObject False (Some rule) child ctx1")
        case (Pair e ctx2)
        show ?thesis
        proof (cases e)
          case (Some err)
          with Pair ys v m show ?thesis
            by (simp add: rule_def[symmetric] ctx1_def[symmetric] Let_def)
        next
          case None
          from "4.IH"(3)[OF nv rule_def ctx1_def Pair[symmetric] None]
          obtain zs where "pixelCalls (snd (drawChildren inherited rest ctx2)) = pixelCalls ctx2 @ zs"
            by auto
          with Pair None ys v m show ?thesis
            by (simp add: rule_def[symmetric] ctx1_def[symmetric] Let_def)
        qed
      qed
    qed
  qed
qed

text \<open>
  An object that paints itself, drawn as a child without raising, leaves its
  \<^verbatim>\<open>drawImage\<close> under the transform and the rule the context had.
\<close>

lemma paintsItself_drawn:
  assumes "paintsItself child" and "drawObject False mtx child ctx = (None, ctx')"
  shows "DrawImage (ident (propsOf child)) (transform ctx) (globalCompositeOperation ctx)
           \<in> set (pixelCalls ctx')"
proof (cases child)
  case (Container q ds)
  with assms show ?thesis by (auto simp: displayObjectDraw_def drawImage_def)
next
  case (Leaf q k)
  show ?thesis
  proof (cases k)
    case PlainObject
    with Leaf assms show ?thesis by (auto simp: displayObjectDraw_def drawImage_def)
  next
    case (BitmapLeaf img)
    with Leaf assms show ?thesis
      by (auto simp: bitmapDraw_def displayObjectDraw_def drawImage_def split: if_splits)
  next
    case (BitmapSequenceLeaf loaded s)
    with Leaf assms show ?thesis
      by (auto simp: bitmapSequenceDraw_def displayObjectDraw_def drawImage_def
            split: if_splits option.splits sum.splits prod.splits rectangle.splits)
  next
    case (DOMElementLeaf element)
    with Leaf assms show ?thesis by simp
  qed
qed

lemma drawChildren_paints:
  assumes "drawChildren inherited cs ctx = (None, ctx')"
    and "child \<in> set cs" and "isVisible child" and "paintsItself child"
  shows "\<exists>r. DrawImage (ident (propsOf child)) (ConcatenatedMatrix (ident (propsOf child))) r
               \<in> set (pixelCalls ctx')"
  using assms
proof (induction cs arbitrary: ctx)
  case Nil
  then show ?case by simp
next
  case (Cons c rest)
  show ?case
  proof (cases "isVisible c")
    case False
    with Cons.prems have "drawChildren inherited rest ctx = (None, ctx')" "child \<in> set rest"
      by auto
    from Cons.IH[OF this Cons.prems(3,4)] show ?thesis .
  next
    case True
    note v = True
    have m: "hasMatrix (propsOf c)" using Cons.prems(1) v by (auto split: if_splits)
    define rule where "rule = (if truthy_string (compositeOperation (propsOf c))
                     then compositeOperation (propsOf c) else inherited)"
    define ctx1 where "ctx1 = (if isContainer c \<and> \<not> cached (propsOf c) then ctx
                     else ctx\<lparr>transform := ConcatenatedMatrix (ident (propsOf c)),
                              globalCompositeOperation :=
                                (case rule of
                                   Some r \<Rightarrow> (if r \<noteq> [] then r else ''source-over'')
                                 | None \<Rightarrow> ''source-over'')\<rparr>)"
    obtain e ctx2 where d: "drawObject False (Some rule) c ctx1 = (e, ctx2)"
      by (cases "drawObject False (Some rule) c ctx1")
    from Cons.prems(1) v m d have e: "e = None"
      and r: "drawChildren inherited rest ctx2 = (None, ctx')"
      by (auto simp: rule_def[symmetric] ctx1_def[symmetric] Let_def split: option.splits)
    show ?thesis
    proof (cases "child = c")
      case False
      with Cons.prems(2) have "child \<in> set rest" by simp
      from Cons.IH[OF r this Cons.prems(3,4)] show ?thesis .
    next
      case True
      with Cons.prems(4) have pc: "paintsItself c" by simp
      have nc: "\<not> (isContainer c \<and> \<not> cached (propsOf c))"
        using pc by (cases c) auto
      from paintsItself_drawn[OF pc d[unfolded e]]
      have "DrawImage (ident (propsOf c)) (transform ctx1) (globalCompositeOperation ctx1)
              \<in> set (pixelCalls ctx2)" .
      moreover have "transform ctx1 = ConcatenatedMatrix (ident (propsOf c))"
        using nc by (auto simp: ctx1_def)
      moreover obtain zs where "pixelCalls ctx' = pixelCalls ctx2 @ zs"
        using draw_extends(2)[of inherited rest ctx2] r by auto
      ultimately show ?thesis using True by auto
    qed
  qed
qed

text \<open>
  A child that does not take mouse events or whose \<^verbatim>\<open>isVisible()\<close> fails is
  passed over by the loop of \<^verbatim>\<open>_getObjectsUnderPoint\<close>: the loop runs as if
  the child were not in the list.
\<close>

lemma unreachable_child_skipped:
  assumes "\<not> reachable child"
  shows "childrenLoop suppress hit this handler (child # upper) arr mouseEvents
           = childrenLoop suppress hit this handler upper arr mouseEvents"
  using assms
  by (auto simp: reachable_def split: sum.splits option.splits prod.splits)

text \<open>\<^verbatim>\<open>draw\<close> does not read \<^verbatim>\<open>mouseEnabled\<close>.\<close>

lemma isVisible_withMouseEnabled: "isVisible (withMouseEnabled b obj) = isVisible obj"
proof (cases obj)
  case (Container q ds)
  then show ?thesis by simp
next
  case (Leaf q k)
  then show ?thesis by (cases k) (simp_all add: baseVisible_def)
qed

lemma drawObject_withMouseEnabled:
  "drawObject ignoreCache mtx (withMouseEnabled b obj) ctx = drawObject ignoreCache mtx obj ctx"
proof (cases obj)
  case (Container q ds)
  then show ?thesis by (cases mtx) (simp_all add: displayObjectDraw_def)
next
  case (Leaf q k)
  then show ?thesis
    by (cases k)
       (auto simp: displayObjectDraw_def bitmapDraw_def bitmapSequenceDraw_def domElementDraw_def
          split: option.splits sum.splits prod.splits rectangle.splits)
qed

lemma propsOf_withMouseEnabled:
  "hasMatrix (propsOf (withMouseEnabled b obj)) = hasMatrix (propsOf obj)"
  "compositeOperation (propsOf (withMouseEnabled b obj)) = compositeOperation (propsOf obj)"
  "cached (propsOf (withMouseEnabled b obj)) = cached (propsOf obj)"
  "ident (propsOf (withMouseEnabled b obj)) = ident (propsOf obj)"
  "isContainer (withMouseEnabled b obj) = isContainer obj"
  by (cases obj; simp)+

lemma drawChildren_withMouseEnabled:
  "drawChildren inherited (lower @ withMouseEnabled b child # rest) ctx
     = drawChildren inherited (lower @ child # rest) ctx"
proof (induction lower arbitrary: ctx)
  case Nil
  show ?case
    by (simp add: isVisible_withMouseEnabled propsOf_withMouseEnabled drawObject_withMouseEnabled
          Let_def del: drawObject.simps cong: if_cong)
next
  case (Cons c lower)
  then show ?case
    by (auto simp: Let_def simp del: drawObject.simps split: prod.splits option.splits)
qed

text \<open>
  Claim C10. When \<^verbatim>\<open>getObjectsUnderPoint\<close> returns an array, every object in it
  has \<^verbatim>\<open>mouseEnabled\<close> set and a true \<^verbatim>\<open>isVisible()\<close>, and so has the
  object that \<^verbatim>\<open>getObjectUnderPoint\<close> returns when it returns one. The loop
  passes over a child failing either test: it runs as if the child were not in the
  list. \<^verbatim>\<open>draw\<close> does not read the flag: when \<^verbatim>\<open>draw\<close> on a Container
  that does not paint its own cache returns without raising, every child with a true
  \<^verbatim>\<open>isVisible()\<close> that paints itself has its \<^verbatim>\<open>drawImage\<close> on the canvas,
  whatever its \<^verbatim>\<open>mouseEnabled\<close>, and assigning \<^verbatim>\<open>mouseEnabled\<close> of a child
  changes nothing in what \<^verbatim>\<open>draw\<close> does or raises.
\<close>

theorem point_queries_skip_disabled:
  "(\<forall>xs. getObjectsUnderPoint suppress hit p cs = Inr xs \<longrightarrow>
      (\<forall>n \<in> set xs. mouseEnabled (propsOf n) \<and> isVisible n)) \<and>
   (\<forall>n. getObjectUnderPoint suppress hit p cs = Inr (Some n) \<longrightarrow>
      mouseEnabled (propsOf n) \<and> isVisible n) \<and>
   (\<forall>child upper. \<not> (mouseEnabled (propsOf child) \<and> isVisible child) \<longrightarrow>
      childrenLoop suppress hit this handler (child # upper) arr mouseEvents
        = childrenLoop suppress hit this handler upper arr mouseEvents) \<and>
   (\<forall>child ctx'. drawObject ignoreCache mtx (Container p cs) ctx = (None, ctx') \<and>
      (ignoreCache \<or> \<not> cached p) \<and> child \<in> set cs \<and> isVisible child \<and> paintsItself child \<longrightarrow>
      (\<exists>r. DrawImage (ident (propsOf child)) (ConcatenatedMatrix (ident (propsOf child))) r
             \<in> set (pixelCalls ctx'))) \<and>
   drawObject ignoreCache mtx (Container p (lower @ withMouseEnabled b other # rest)) ctx
     = drawObject ignoreCache mtx (Container p (lower @ other # rest)) ctx"
proof -
  have 1: "mouseEnabled (propsOf n) \<and> isVisible n"
    if r: "getObjectsUnderPoint suppress hit p cs = Inr xs" and n: "n \<in> set xs" for xs n
  proof -
    from r obtain res a
      where rr: "getObjectsUnderPointRec suppress hit p cs (Some []) 0 = Inr (res, a)"
        and xs: "xs = (case a of Some ar \<Rightarrow> ar | None \<Rightarrow> [])"
      by (cases "getObjectsUnderPointRec suppress hit p cs (Some []) 0")
         (auto simp: getObjectsUnderPoint_def split: option.splits)
    from rec_reachable(1)[OF rr] have "all_reachable a"
      by (simp add: all_reachable_def)
    with n xs have "reachable n" by (cases a) (auto simp: all_reachable_def list_all_iff)
    then show ?thesis by (simp add: reachable_def)
  qed
  have 2: "mouseEnabled (propsOf n) \<and> isVisible n"
    if r: "getObjectUnderPoint suppress hit p cs = Inr (Some n)" for n
  proof -
    from r obtain others a where "getObjectsUnderPointRec suppress hit p cs None 0
        = Inr (Some (n # others), a)"
      by (cases "getObjectsUnderPointRec suppress hit p cs None 0")
         (auto simp: getObjectUnderPoint_def split: option.splits list.splits)
    from rec_reachable(1)[OF this] have "all_reachable (Some (n # others))"
      by (simp add: all_reachable_def)
    then have "reachable n" by (simp add: all_reachable_def)
    then show ?thesis by (simp add: reachable_def)
  qed
  have 3: "childrenLoop suppress hit this handler (child # upper) arr mouseEvents
        = childrenLoop suppress hit this handler upper arr mouseEvents"
    if "\<not> (mouseEnabled (propsOf child) \<and> isVisible child)" for child upper
    using that by (intro unreachable_child_skipped) (simp add: reachable_def)
  have 4: "\<exists>r. DrawImage (ident (propsOf child)) (ConcatenatedMatrix (ident (propsOf child))) r
             \<in> set (pixelCalls ctx')"
    if a: "drawObject ignoreCache mtx (Container p cs) ctx = (None, ctx') \<and>
      (ignoreCache \<or> \<not> cached p) \<and> child \<in> set cs \<and> isVisible child \<and> paintsItself child"
    for child ctx'
  proof -
    from a have d: "displayObjectDraw ignoreCache p ctx = (False, ctx)"
      by (auto simp: displayObjectDraw_def)
    from a d obtain inherited where "drawChildren inherited cs ctx = (None, ctx')"
      by (cases mtx) (auto split: if_splits)
    from drawChildren_paints[OF this] a show ?thesis by blast
  qed
  have 5: "drawObject ignoreCache mtx (Container p (lower @ withMouseEnabled b other # rest)) ctx
     = drawObject ignoreCache mtx (Container p (lower @ other # rest)) ctx"
    by (auto simp: drawChildren_withMouseEnabled split: prod.splits option.splits bool.splits)
  from 1 2 3 4 5 show ?thesis by blast
qed

text \<open>
  With a matrix on the Container and both Bitmaps covering the point, the queries return
  Bitmap 1 only: Bitmap 2, which lies above it and does not take mouse events, is
  passed over, and \<^verbatim>\<open>draw\<close> paints it after Bitmap 1. A Container as its
  constructor leaves it returns the empty array when its only child is Bitmap 2, and
  \<^verbatim>\<open>draw\<close> with a matrix passed in paints that child.
\<close>

theorem point_queries_skip_disabled_witness:
  "getObjectsUnderPoint False hitAll (containerProps True) twoBitmaps = Inr [bitmap 1 True] \<and>
   getObjectUnderPoint False hitAll (containerProps True) twoBitmaps = Inr (Some (bitmap 1 True)) \<and>
   mouseEnabled (propsOf (bitmap 1 True)) \<and> isVisible (bitmap 1 True) \<and>
   \<not> mouseEnabled (propsOf (bitmap 2 False)) \<and> isVisible (bitmap 2 False) \<and>
   paintsItself (bitmap 2 False) \<and> bitmap 2 False \<in> set twoBitmaps \<and>
   childrenLoop False hitAll (Container (containerProps True) twoBitmaps) False
       [bitmap 2 False] (Some []) 0 = Inr (None, Some []) \<and>
   fst (drawObject False None (Container (containerProps True) twoBitmaps) blank) = None \<and>
   pixelCalls (snd (drawObject False None (Container (containerProps True) twoBitmaps) blank))
     = [DrawImage 1 (ConcatenatedMatrix 1) ''source-over'',
        DrawImage 2 (ConcatenatedMatrix 2) ''source-over''] \<and>
   (\<exists>r. DrawImage 2 (ConcatenatedMatrix 2) r
      \<in> set (pixelCalls (snd (drawObject False None (Container (containerProps True) twoBitmaps) blank)))) \<and>
   getObjectsUnderPoint False hitAll (containerProps False) [bitmap 2 False] = Inr [] \<and>
   pixelCalls (snd (drawObject False (Some None) (Container (containerProps False) [bitmap 2 False]) blank))
     = [DrawImage 2 (ConcatenatedMatrix 2) ''source-over'']"
proof -
  have a: "getObjectsUnderPoint False hitAll (containerProps True) twoBitmaps = Inr [bitmap 1 True]"
    by (simp add: getObjectsUnderPoint_def containerProps_def twoBitmaps_def bitmap_def
          bitmapProps_def hasHandler_def baseVisible_def drawAndTest_def drawsOnProbe_def
          testHit_def hitAll_def probe_def bitmapDraw_def displayObjectDraw_def drawImage_def)
  have b: "getObjectUnderPoint False hitAll (containerProps True) twoBitmaps
             = Inr (Some (bitmap 1 True))"
    by (simp add: getObjectUnderPoint_def containerProps_def twoBitmaps_def bitmap_def
          bitmapProps_def hasHandler_def baseVisible_def drawAndTest_def drawsOnProbe_def
          testHit_def hitAll_def probe_def bitmapDraw_def displayObjectDraw_def drawImage_def)
  have c: "\<not> (mouseEnabled (propsOf (bitmap 2 False)) \<and> isVisible (bitmap 2 False))"
    "isVisible (bitmap 2 False)" "paintsItself (bitmap 2 False)"
    "bitmap 2 False \<in> set twoBitmaps" "\<not> cached (containerProps True)"
    "ident (propsOf (bitmap 2 False)) = 2"
    by (simp_all add: bitmap_def bitmapProps_def baseVisible_def twoBitmaps_def containerProps_def)
  have d: "drawObject False None (Container (containerProps True) twoBitmaps) blank
      = (None, blank\<lparr>transform := ConcatenatedMatrix 2,
                      pixelCalls := [DrawImage 1 (ConcatenatedMatrix 1) ''source-over'',
                                     DrawImage 2 (ConcatenatedMatrix 2) ''source-over'']\<rparr>)"
    by (simp add: containerProps_def twoBitmaps_def bitmap_def bitmapProps_def baseVisible_def
          blank_def bitmapDraw_def displayObjectDraw_def drawImage_def truthy_string_def)
  have e: "getObjectsUnderPoint False hitAll (containerProps False) [bitmap 2 False] = Inr []"
    by (simp add: getObjectsUnderPoint_def containerProps_def bitmap_def bitmapProps_def
          hasHandler_def baseVisible_def)
  have f: "pixelCalls (snd (drawObject False (Some None)
                (Container (containerProps False) [bitmap 2 False]) blank))
             = [DrawImage 2 (ConcatenatedMatrix 2) ''source-over'']"
    by (simp add: containerProps_def bitmap_def bitmapProps_def baseVisible_def
          blank_def bitmapDraw_def displayObjectDraw_def drawImage_def truthy_string_def)
  note t = point_queries_skip_disabled[of False hitAll "containerProps True" twoBitmaps
              "Container (containerProps True) twoBitmaps" False "Some []" 0
              False None blank "[]" False "bitmap 2 True" "[]"]
  from t have t1: "\<forall>xs. getObjectsUnderPoint False hitAll (containerProps True) twoBitmaps = Inr xs \<longrightarrow>
      (\<forall>n \<in> set xs. mouseEnabled (propsOf n) \<and> isVisible n)"
    by (rule conjunct1)
  from t have t3: "\<forall>child upper. \<not> (mouseEnabled (propsOf child) \<and> isVisible child) \<longrightarrow>
      childrenLoop False hitAll (Container (containerProps True) twoBitmaps) False (child # upper) (Some []) 0
        = childrenLoop False hitAll (Container (containerProps True) twoBitmaps) False upper (Some []) 0"
    by (rule conjunct1[OF conjunct2[OF conjunct2]])
  from t have t4: "\<forall>child ctx'. drawObject False None (Container (containerProps True) twoBitmaps) blank = (None, ctx') \<and>
      (False \<or> \<not> cached (containerProps True)) \<and> child \<in> set twoBitmaps \<and> isVisible child \<and> paintsItself child \<longrightarrow>
      (\<exists>r. DrawImage (ident (propsOf child)) (ConcatenatedMatrix (ident (propsOf child))) r
             \<in> set (pixelCalls ctx'))"
    by (rule conjunct1[OF conjunct2[OF conjunct2[OF conjunct2]]])
  from t1 a have g: "mouseEnabled (propsOf (bitmap 1 True)) \<and> isVisible (bitmap 1 True)"
    by simp
  from t3 c(1) have "childrenLoop False hitAll (Container (containerProps True) twoBitmaps) False
       [bitmap 2 False] (Some []) 0
     = childrenLoop False hitAll (Container (containerProps True) twoBitmaps) False [] (Some []) 0"
    by blast
  then have h: "childrenLoop False hitAll (Container (containerProps True) twoBitmaps) False
       [bitmap 2 False] (Some []) 0 = Inr (None, Some [])"
    by (simp del: childrenLoop.simps(2))
  from t4 c(2,3,4,5) d
  have "\<exists>r. DrawImage (ident (propsOf (bitmap 2 False)))
              (ConcatenatedMatrix (ident (propsOf (bitmap 2 False)))) r
      \<in> set (pixelCalls (snd (drawObject False None (Container (containerProps True) twoBitmaps) blank)))"
    by (metis snd_conv)
  then have i: "\<exists>r. DrawImage 2 (ConcatenatedMatrix 2) r
      \<in> set (pixelCalls (snd (drawObject False None (Container (containerProps True) twoBitmaps) blank)))"
    by (simp only: c(6))
  have c1: "\<not> mouseEnabled (propsOf (bitmap 2 False))"
    by (simp add: bitmap_def bitmapProps_def)
  from a b c c1 d e f g h i show ?thesis by (simp del: childrenLoop.simps(2))
qed

text \<open>
  A Container as its constructor leaves it, with the two Bitmaps: the test of Bitmap 1
  reads the matrix the Container does not have, and so does \<^verbatim>\<open>draw\<close> when no
  matrix is passed in. Both queries and \<^verbatim>\<open>draw\<close> raise a TypeError.
  \<^verbatim>\<open>getObjectUnderPoint\<close> raises even when no child is tested, since it reads
  element 0 of \<^verbatim>\<open>null\<close>.
\<close>

lemma constructed_container_raises:
  "getObjectsUnderPoint False hitAll (containerProps False) twoBitmaps = Inl TypeError \<and>
   getObjectUnderPoint False hitAll (containerProps False) twoBitmaps = Inl TypeError \<and>
   drawObject False None (Container (containerProps False) twoBitmaps) blank = (Some TypeError, blank) \<and>
   getObjectUnderPoint False hitAll (containerProps False) [bitmap 2 False] = Inl TypeError"
  by (simp add: getObjectsUnderPoint_def getObjectUnderPoint_def containerProps_def
        twoBitmaps_def bitmap_def bitmapProps_def hasHandler_def baseVisible_def
        displayObjectDraw_def)

text \<open>
  A Container nested in a Container has no matrix either, so \<^verbatim>\<open>draw\<close> of the
  outer one raises when it reaches a nested Container whose \<^verbatim>\<open>isVisible()\<close>
  holds, also when a matrix was passed in.
\<close>

lemma nested_container_raises:
  "fst (drawObject False (Some None)
          (Container (containerProps False)
             [bitmap 1 True, Container (containerProps False) [bitmap 2 False]]) blank)
     = Some TypeError"
  by (simp add: containerProps_def bitmap_def bitmapProps_def baseVisible_def
        blank_def bitmapDraw_def displayObjectDraw_def drawImage_def truthy_string_def)

end
